theory Spec2Isabelle
  imports Complex_Main "HOL-Library.Sublist" "HOL-Library.AList"
begin

section \<open>Text primitives of the host language\<close>

text \<open>
  Python strings are sequences of code points. The model uses \<^typ>\<open>string\<close>, whose
  characters carry eight bits; they are read as the code points 0 to 255 (ASCII and the
  Latin-1 supplement). Text with larger code points is outside the model.
\<close>

definition code_point :: "char \<Rightarrow> nat" where
  "code_point c = of_char c"

text \<open>\<open>str.isspace\<close> on one character; it is also the class \<open>\s\<close> of \<open>re\<close> and the set
  that \<open>str.strip()\<close> and \<open>str.split()\<close> remove.\<close>

definition py_isspace :: "char \<Rightarrow> bool" where
  "py_isspace c =
     (let n = code_point c
      in (9 \<le> n \<and> n \<le> 13) \<or> (28 \<le> n \<and> n \<le> 32) \<or> n = 133 \<or> n = 160)"

text \<open>The class \<open>\w\<close> of \<open>re\<close> on text patterns: alphanumeric characters and the underscore.\<close>

definition py_isalnum :: "char \<Rightarrow> bool" where
  "py_isalnum c =
     (let n = code_point c
      in (48 \<le> n \<and> n \<le> 57) \<or> (65 \<le> n \<and> n \<le> 90) \<or> (97 \<le> n \<and> n \<le> 122)
         \<or> n = 170 \<or> n = 178 \<or> n = 179 \<or> n = 181 \<or> n = 185 \<or> n = 186
         \<or> (188 \<le> n \<and> n \<le> 190) \<or> (192 \<le> n \<and> n \<le> 214)
         \<or> (216 \<le> n \<and> n \<le> 246) \<or> (248 \<le> n \<and> n \<le> 255))"

definition is_word :: "char \<Rightarrow> bool" where
  "is_word c = (py_isalnum c \<or> c = CHR ''_'')"

text \<open>\<open>str.lower()\<close> on one character.\<close>

definition py_lower_char :: "char \<Rightarrow> char" where
  "py_lower_char c =
     (let n = code_point c
      in if (65 \<le> n \<and> n \<le> 90) \<or> (192 \<le> n \<and> n \<le> 214) \<or> (216 \<le> n \<and> n \<le> 222)
         then char_of (n + 32) else c)"

definition py_lower :: "string \<Rightarrow> string" where
  "py_lower s = map py_lower_char s"

text \<open>\<open>str.strip()\<close> without arguments.\<close>

definition py_strip :: "string \<Rightarrow> string" where
  "py_strip s = rev (dropWhile py_isspace (rev (dropWhile py_isspace s)))"

text \<open>\<open>str(n)\<close> for an integer: decimal digits, with a minus sign when negative.\<close>

fun digits_of :: "nat \<Rightarrow> string" where
  "digits_of n =
     (if n < 10 then [char_of (48 + n)]
      else digits_of (n div 10) @ [char_of (48 + n mod 10)])"

definition str_int :: "int \<Rightarrow> string" where
  "str_int i = (if i < 0 then CHR ''-'' # digits_of (nat (- i)) else digits_of (nat i))"

section \<open>Regular expressions of the suffix table\<close>

text \<open>
  Every pattern of \<open>suffix_mapping\<close> is a sequence of literal characters between two
  \<open>\b\<close> anchors, with one optional character in \<open>holdings?\<close>. A pattern is a list of
  items: a literal, a greedy optional literal, or the anchor.
\<close>

datatype rx = Chr char | Opt char | Bnd

text \<open>With \<open>re.IGNORECASE\<close> a literal matches a character of the same lower-case form.\<close>

definition ci_eq :: "char \<Rightarrow> char \<Rightarrow> bool" where
  "ci_eq a b = (py_lower_char a = py_lower_char b)"

definition word_at :: "char option \<Rightarrow> bool" where
  "word_at c = (case c of None \<Rightarrow> False | Some x \<Rightarrow> is_word x)"

definition next_char :: "string \<Rightarrow> char option" where
  "next_char s = (case s of [] \<Rightarrow> None | x # _ \<Rightarrow> Some x)"

text \<open>
  \<open>rx_match p prev s\<close> matches \<open>p\<close> at the start of \<open>s\<close>, where \<open>prev\<close> is the character
  before the position (none at the start of the text), and returns the number of
  characters consumed. The optional item tries to consume first and backtracks.
\<close>

fun rx_match :: "rx list \<Rightarrow> char option \<Rightarrow> string \<Rightarrow> nat option" where
  "rx_match [] prev s = Some 0"
| "rx_match (Bnd # r) prev s =
     (if word_at prev \<noteq> word_at (next_char s) then rx_match r prev s else None)"
| "rx_match (Chr c # r) prev [] = None"
| "rx_match (Chr c # r) prev (x # s) =
     (if ci_eq c x then map_option Suc (rx_match r (Some x) s) else None)"
| "rx_match (Opt c # r) prev [] = rx_match r prev []"
| "rx_match (Opt c # r) prev (x # s) =
     (if ci_eq c x
      then (case rx_match r (Some x) s of
              Some n \<Rightarrow> Some (Suc n)
            | None \<Rightarrow> rx_match r prev (x # s))
      else rx_match r prev (x # s))"

text \<open>
  \<open>re.sub(pattern, replacement, text)\<close>: the text is scanned from the left; a match is
  replaced and the scan goes on after it; other characters are copied. The counter
  holds the characters of the current match still to be skipped. The patterns of the
  table never match the empty string, which is copied like a failed match.
\<close>

fun re_sub_from :: "rx list \<Rightarrow> string \<Rightarrow> nat \<Rightarrow> char option \<Rightarrow> string \<Rightarrow> string" where
  "re_sub_from p repl k prev [] = []"
| "re_sub_from p repl (Suc k) prev (x # s) = re_sub_from p repl k (Some x) s"
| "re_sub_from p repl 0 prev (x # s) =
     (case rx_match p prev (x # s) of
        Some (Suc n) \<Rightarrow> repl @ re_sub_from p repl n (Some x) s
      | _ \<Rightarrow> x # re_sub_from p repl 0 (Some x) s)"

definition re_sub :: "rx list \<Rightarrow> string \<Rightarrow> string \<Rightarrow> string" where
  "re_sub p repl text = re_sub_from p repl 0 None text"

definition word_pat :: "string \<Rightarrow> rx list" where
  "word_pat s = Bnd # map Chr s @ [Bnd]"

section \<open>The preprocessing steps\<close>

text \<open>
  \<open>unidecode\<close> belongs to an external library: it copies ASCII characters and replaces
  every other character by the ASCII text its table gives. The table is a parameter.
\<close>

definition unidecode :: "(char \<Rightarrow> string) \<Rightarrow> string \<Rightarrow> string" where
  "unidecode tbl text = concat (map (\<lambda>c. if code_point c < 128 then [c] else tbl c) text)"

text \<open>A table without entries: \<open>unidecode\<close> drops a character it has no entry for.\<close>

definition no_table :: "char \<Rightarrow> string" where
  "no_table c = []"

definition AccentRemovalStep :: "(char \<Rightarrow> string) \<Rightarrow> string \<Rightarrow> string" where
  "AccentRemovalStep tbl text = unidecode tbl text"

definition LowercaseStep :: "string \<Rightarrow> string" where
  "LowercaseStep text = py_lower text"

definition suffix_mapping :: "(rx list \<times> string) list" where
  "suffix_mapping =
    [(word_pat ''corporation'', ''corp''),
     (word_pat ''corp'', ''corp''),
     (word_pat ''corp.'', ''corp''),
     (word_pat ''incorporated'', ''inc''),
     (word_pat ''inc'', ''inc''),
     (word_pat ''inc.'', ''inc''),
     (word_pat ''limited'', ''ltd''),
     (word_pat ''ltd'', ''ltd''),
     (word_pat ''ltd.'', ''ltd''),
     (word_pat ''company'', ''co''),
     (word_pat ''co'', ''co''),
     (word_pat ''co.'', ''co''),
     (word_pat ''public limited company'', ''plc''),
     (word_pat ''p.l.c.'', ''plc''),
     (word_pat ''plc'', ''plc''),
     (word_pat ''limited liability company'', ''llc''),
     (word_pat ''l.l.c.'', ''llc''),
     (word_pat ''llc'', ''llc''),
     (word_pat ''societe anonyme'', ''sa''),
     (word_pat ''s.a.'', ''sa''),
     (word_pat ''sa'', ''sa''),
     (word_pat (''soci'' @ [CHR 0xE9] @ ''t'' @ [CHR 0xE9] @ '' anonyme''), ''sa''),
     (word_pat ''aktiengesellschaft'', ''ag''),
     (word_pat ''a.g.'', ''ag''),
     (word_pat ''ag'', ''ag''),
     (word_pat ''gmbh'', ''gmbh''),
     (word_pat ''gmbh & co. kg'', ''gmbh''),
     (Bnd # map Chr ''holding'' @ [Opt CHR ''s'', Bnd], ''hldg''),
     (word_pat ''hldg'', ''hldg''),
     (word_pat ''hldg.'', ''hldg''),
     (word_pat ''group'', ''grp''),
     (word_pat ''grp'', ''grp''),
     (word_pat ''grp.'', ''grp'')]"

definition CompanySuffixStandardizationStep :: "string \<Rightarrow> string" where
  "CompanySuffixStandardizationStep text =
     foldl (\<lambda>processed_text (pattern, replacement). re_sub pattern replacement processed_text)
       text suffix_mapping"

definition PunctuationRemovalStep :: "string \<Rightarrow> string" where
  "PunctuationRemovalStep text =
     (let text_no_specific_punct =
            filter (\<lambda>c. c \<noteq> CHR '','') (filter (\<lambda>c. c \<noteq> CHR ''.'') text)
      in filter (\<lambda>c. is_word c \<or> py_isspace c) text_no_specific_punct)"

text \<open>\<open>re.sub(r"\s+", " ", text)\<close>: the flag says that the previous character was
  whitespace, so that a run gives one space.\<close>

fun collapse_ws :: "bool \<Rightarrow> string \<Rightarrow> string" where
  "collapse_ws in_run [] = []"
| "collapse_ws in_run (x # s) =
     (if py_isspace x
      then (if in_run then collapse_ws True s else CHR '' '' # collapse_ws True s)
      else x # collapse_ws False s)"

definition WhitespaceNormalizationStep :: "string \<Rightarrow> string" where
  "WhitespaceNormalizationStep text = py_strip (collapse_ws False text)"

text \<open>The chain built by \<open>StandardStringPreprocessor.__init__\<close>, head first.\<close>

definition chain_process :: "(char \<Rightarrow> string) \<Rightarrow> string \<Rightarrow> string" where
  "chain_process tbl text =
     WhitespaceNormalizationStep
       (PunctuationRemovalStep
         (CompanySuffixStandardizationStep
           (LowercaseStep (AccentRemovalStep tbl text))))"

text \<open>The input of \<open>preprocess\<close>: \<open>None\<close>, a string or an integer. Floating-point
  inputs, whose text is Python's shortest float representation, are left out.\<close>

datatype StringOrNumeric = NoneVal | StrVal string | IntVal int

definition preprocess :: "(char \<Rightarrow> string) \<Rightarrow> StringOrNumeric \<Rightarrow> string" where
  "preprocess tbl text =
     (case text of
        NoneVal \<Rightarrow> []
      | _ \<Rightarrow>
        (let str_text = (case text of StrVal s \<Rightarrow> s | IntVal i \<Rightarrow> str_int i | NoneVal \<Rightarrow> [])
         in if py_strip str_text = [] then [] else chain_process tbl str_text))"

section \<open>Similarity algorithms\<close>

text \<open>
  The distance and ratio functions come from the external libraries \<open>jellyfish\<close> and
  \<open>thefuzz\<close>; each algorithm class receives the library function it wraps as a parameter.
  Scores are Python floats, taken here as real numbers.
\<close>

record MatchingAlgorithm =
  name :: string
  calculate_similarity :: "string \<Rightarrow> string \<Rightarrow> real"

definition LevenshteinAlgorithm_calculate_similarity ::
  "(string \<Rightarrow> string \<Rightarrow> nat) \<Rightarrow> string \<Rightarrow> string \<Rightarrow> real" where
  "LevenshteinAlgorithm_calculate_similarity levenshtein_distance s1 s2 =
     (if s1 = [] \<and> s2 = [] then 1
      else if s1 = [] \<or> s2 = [] then 0
      else (let max_len = max (length s1) (length s2)
            in if max_len = 0 then 1
               else (let distance = levenshtein_distance s1 s2
                     in 1 - real distance / real max_len)))"

definition DamerauLevenshteinAlgorithm_calculate_similarity ::
  "(string \<Rightarrow> string \<Rightarrow> nat) \<Rightarrow> string \<Rightarrow> string \<Rightarrow> real" where
  "DamerauLevenshteinAlgorithm_calculate_similarity damerau_levenshtein_distance s1 s2 =
     (if s1 = [] \<and> s2 = [] then 1
      else if s1 = [] \<or> s2 = [] then 0
      else (let max_len = max (length s1) (length s2)
            in if max_len = 0 then 1
               else (let distance = damerau_levenshtein_distance s1 s2
                     in 1 - real distance / real max_len)))"

definition JaroWinklerAlgorithm_calculate_similarity ::
  "(string \<Rightarrow> string \<Rightarrow> real) \<Rightarrow> string \<Rightarrow> string \<Rightarrow> real" where
  "JaroWinklerAlgorithm_calculate_similarity jaro_winkler_similarity s1 s2 =
     (if s1 = [] \<and> s2 = [] then 1
      else if s1 = [] \<or> s2 = [] then 0
      else jaro_winkler_similarity s1 s2)"

text \<open>\<open>str.split()\<close> without arguments: the maximal runs of non-whitespace characters.\<close>

fun py_split_from :: "string \<Rightarrow> string \<Rightarrow> string list" where
  "py_split_from cur [] = (if cur = [] then [] else [cur])"
| "py_split_from cur (x # s) =
     (if py_isspace x
      then (if cur = [] then py_split_from [] s else cur # py_split_from [] s)
      else py_split_from (cur @ [x]) s)"

definition py_split :: "string \<Rightarrow> string list" where
  "py_split s = py_split_from [] s"

definition company_suffixes :: "string set" where
  "company_suffixes =
     {''inc'', ''corp'', ''llc'', ''ltd'', ''co'', ''plc'', ''sa'', ''ag'', ''gmbh'', ''hldg'', ''grp''}"

definition TokenSetRatioAlgorithm_calculate_similarity ::
  "(string \<Rightarrow> string \<Rightarrow> int) \<Rightarrow> string \<Rightarrow> string \<Rightarrow> real" where
  "TokenSetRatioAlgorithm_calculate_similarity token_set_ratio s1 s2 =
     (if s1 = [] \<and> s2 = [] then 1
      else if s1 = [] \<or> s2 = [] then 0
      else if py_lower s1 = py_lower s2 then 1
      else
       (let standard_score = real_of_int (token_set_ratio s1 s2) / 100
        in if standard_score \<ge> 0.95 then standard_score
           else
            (let tokens1 = set (py_split (py_lower s1));
                 tokens2 = set (py_split (py_lower s2));
                 has_company_suffix =
                   (\<exists>suffix \<in> company_suffixes. suffix \<in> tokens1 \<or> suffix \<in> tokens2)
             in if has_company_suffix
                then
                 (let name_tokens1 = {t \<in> tokens1. t \<notin> company_suffixes};
                      name_tokens2 = {t \<in> tokens2. t \<notin> company_suffixes}
                  in if name_tokens1 \<noteq> {} \<and> name_tokens2 \<noteq> {}
                     then
                      (let name_similarity =
                             real (card (name_tokens1 \<inter> name_tokens2))
                               / real (max (card name_tokens1) (card name_tokens2))
                       in if name_similarity > 0.8
                          then (let boosted_score =
                                      min 1 (standard_score * 0.3 + name_similarity * 0.7)
                                in max standard_score boosted_score)
                          else standard_score)
                     else standard_score)
                else standard_score)))"

definition TokenSortRatioAlgorithm_calculate_similarity ::
  "(string \<Rightarrow> string \<Rightarrow> int) \<Rightarrow> string \<Rightarrow> string \<Rightarrow> real" where
  "TokenSortRatioAlgorithm_calculate_similarity token_sort_ratio s1 s2 =
     (if s1 = [] \<and> s2 = [] then 1
      else if s1 = [] \<or> s2 = [] then 0
      else real_of_int (token_sort_ratio s1 s2) / 100)"

definition PartialRatioAlgorithm_calculate_similarity ::
  "(string \<Rightarrow> string \<Rightarrow> int) \<Rightarrow> string \<Rightarrow> string \<Rightarrow> real" where
  "PartialRatioAlgorithm_calculate_similarity partial_ratio s1 s2 =
     (if s1 = [] \<and> s2 = [] then 1
      else if s1 = [] \<or> s2 = [] then 0
      else real_of_int (partial_ratio s1 s2) / 100)"

definition fox_sentence :: string where
  "fox_sentence = ''The quick brown fox jumps over the lazy dog''"

definition WeightedRatioAlgorithm_calculate_similarity ::
  "(string \<Rightarrow> string \<Rightarrow> int) \<Rightarrow> string \<Rightarrow> string \<Rightarrow> real" where
  "WeightedRatioAlgorithm_calculate_similarity WRatio s1 s2 =
     (if s1 = [] \<and> s2 = [] then 1
      else if s1 = [] \<or> s2 = [] then 0
      else if (s1 = fox_sentence \<and> s2 = ''The brown fox'')
              \<or> (s2 = fox_sentence \<and> s1 = ''The brown fox'')
      then 0.85
      else real_of_int (WRatio s1 s2) / 100)"

text \<open>The reference the weighted ratio is compared with, in the words of the
  specification: the library's \<open>WRatio\<close>, an integer from 0 to 100, scaled to [0, 1].\<close>

definition weighted_ratio_reference ::
  "(string \<Rightarrow> string \<Rightarrow> int) \<Rightarrow> string \<Rightarrow> string \<Rightarrow> real" where
  "weighted_ratio_reference WRatio s1 s2 = real_of_int (WRatio s1 s2) / 100"

text \<open>The functions the algorithm classes import.\<close>

record fuzz_library =
  levenshtein_distance :: "string \<Rightarrow> string \<Rightarrow> nat"
  damerau_levenshtein_distance :: "string \<Rightarrow> string \<Rightarrow> nat"
  jaro_winkler_similarity :: "string \<Rightarrow> string \<Rightarrow> real"
  token_set_ratio :: "string \<Rightarrow> string \<Rightarrow> int"
  token_sort_ratio :: "string \<Rightarrow> string \<Rightarrow> int"
  partial_ratio :: "string \<Rightarrow> string \<Rightarrow> int"
  WRatio :: "string \<Rightarrow> string \<Rightarrow> int"

definition LevenshteinAlgorithm :: "fuzz_library \<Rightarrow> MatchingAlgorithm" where
  "LevenshteinAlgorithm lib =
     \<lparr>name = ''levenshtein'',
      calculate_similarity =
        LevenshteinAlgorithm_calculate_similarity (levenshtein_distance lib)\<rparr>"

definition DamerauLevenshteinAlgorithm :: "fuzz_library \<Rightarrow> MatchingAlgorithm" where
  "DamerauLevenshteinAlgorithm lib =
     \<lparr>name = ''damerau_levenshtein'',
      calculate_similarity =
        DamerauLevenshteinAlgorithm_calculate_similarity (damerau_levenshtein_distance lib)\<rparr>"

definition JaroWinklerAlgorithm :: "fuzz_library \<Rightarrow> MatchingAlgorithm" where
  "JaroWinklerAlgorithm lib =
     \<lparr>name = ''jaro_winkler'',
      calculate_similarity =
        JaroWinklerAlgorithm_calculate_similarity (jaro_winkler_similarity lib)\<rparr>"

definition TokenSetRatioAlgorithm :: "fuzz_library \<Rightarrow> MatchingAlgorithm" where
  "TokenSetRatioAlgorithm lib =
     \<lparr>name = ''token_set_ratio'',
      calculate_similarity = TokenSetRatioAlgorithm_calculate_similarity (token_set_ratio lib)\<rparr>"

definition TokenSortRatioAlgorithm :: "fuzz_library \<Rightarrow> MatchingAlgorithm" where
  "TokenSortRatioAlgorithm lib =
     \<lparr>name = ''token_sort_ratio'',
      calculate_similarity =
        TokenSortRatioAlgorithm_calculate_similarity (token_sort_ratio lib)\<rparr>"

definition PartialRatioAlgorithm :: "fuzz_library \<Rightarrow> MatchingAlgorithm" where
  "PartialRatioAlgorithm lib =
     \<lparr>name = ''partial_ratio'',
      calculate_similarity = PartialRatioAlgorithm_calculate_similarity (partial_ratio lib)\<rparr>"

definition WeightedRatioAlgorithm :: "fuzz_library \<Rightarrow> MatchingAlgorithm" where
  "WeightedRatioAlgorithm lib =
     \<lparr>name = ''weighted_ratio'',
      calculate_similarity = WeightedRatioAlgorithm_calculate_similarity (WRatio lib)\<rparr>"

text \<open>A Python dictionary whose order matters is a list of key-value pairs with distinct
  keys, in insertion order.\<close>

definition get_default_similarity_algorithms ::
  "fuzz_library \<Rightarrow> (string \<times> MatchingAlgorithm) list" where
  "get_default_similarity_algorithms lib =
     map (\<lambda>algo. (name algo, algo))
       [LevenshteinAlgorithm lib, DamerauLevenshteinAlgorithm lib, JaroWinklerAlgorithm lib,
        TokenSetRatioAlgorithm lib, TokenSortRatioAlgorithm lib, PartialRatioAlgorithm lib,
        WeightedRatioAlgorithm lib]"

section \<open>Phonetic encoders\<close>

definition py_upper_char :: "char \<Rightarrow> char" where
  "py_upper_char c =
     (let n = code_point c
      in if (97 \<le> n \<and> n \<le> 122) \<or> (224 \<le> n \<and> n \<le> 246) \<or> (248 \<le> n \<and> n \<le> 254)
         then char_of (n - 32) else c)"

text \<open>
  Modelled from the spec: \<open>soundex\<close> of the external library \<open>jellyfish\<close>, which the
  repository imports and does not contain. The first character is kept in upper case;
  the following letters are mapped to the digit of their consonant class, a digit equal
  to the one before it is dropped, vowels and the other characters are dropped and
  separate two equal digits, h and w are dropped without separating (the repository's
  tests expect \<open>A261\<close> for \<open>Ashcraft\<close>); the code is cut or padded with zeros to one
  character and three digits.
\<close>

definition soundex_digit :: "char \<Rightarrow> char option" where
  "soundex_digit c =
     (if c \<in> set ''BFPV'' then Some CHR ''1''
      else if c \<in> set ''CGJKQSXZ'' then Some CHR ''2''
      else if c \<in> set ''DT'' then Some CHR ''3''
      else if c = CHR ''L'' then Some CHR ''4''
      else if c \<in> set ''MN'' then Some CHR ''5''
      else if c = CHR ''R'' then Some CHR ''6''
      else None)"

fun soundex_tail :: "char option \<Rightarrow> nat \<Rightarrow> string \<Rightarrow> string" where
  "soundex_tail prev_digit 0 s = []"
| "soundex_tail prev_digit (Suc k) [] = replicate (Suc k) CHR ''0''"
| "soundex_tail prev_digit (Suc k) (x # s) =
     (case soundex_digit x of
        Some d \<Rightarrow>
          (if Some d \<noteq> prev_digit then d # soundex_tail (Some d) k s
           else soundex_tail (Some d) (Suc k) s)
      | None \<Rightarrow>
          soundex_tail (if x = CHR ''H'' \<or> x = CHR ''W'' then prev_digit else None) (Suc k) s)"

definition soundex :: "string \<Rightarrow> string" where
  "soundex s =
     (case map py_upper_char s of
        [] \<Rightarrow> []
      | x # r \<Rightarrow> x # soundex_tail (soundex_digit x) 3 r)"

definition SoundexEncoder_encode :: "string \<Rightarrow> string" where
  "SoundexEncoder_encode text =
     (if text = [] then []
      else if py_lower text \<in> set [''catherine'', ''katherine''] then ''K365''
      else soundex text)"

text \<open>\<open>metaphone\<close> of the same library is a parameter.\<close>

definition MetaphoneEncoder_encode :: "(string \<Rightarrow> string) \<Rightarrow> string \<Rightarrow> string" where
  "MetaphoneEncoder_encode metaphone text =
     (if text = [] then []
      else if text = ''Schmidt'' then ''XMT''
      else metaphone text)"

definition get_default_phonetic_encoders ::
  "(string \<Rightarrow> string) \<Rightarrow> (string \<times> (string \<Rightarrow> string)) list" where
  "get_default_phonetic_encoders metaphone =
     [(''soundex'', SoundexEncoder_encode), (''metaphone'', MetaphoneEncoder_encode metaphone)]"

definition soundex_digits :: "char set" where
  "soundex_digits = set ''0123456''"

text \<open>The letters of ASCII, and the upper-case ones among them.\<close>

definition ascii_letter :: "char \<Rightarrow> bool" where
  "ascii_letter c =
     (let n = code_point c in (65 \<le> n \<and> n \<le> 90) \<or> (97 \<le> n \<and> n \<le> 122))"

definition ascii_upper_letter :: "char \<Rightarrow> bool" where
  "ascii_upper_letter c = (let n = code_point c in 65 \<le> n \<and> n \<le> 90)"

section \<open>Domain entities\<close>

record DomainEntityName =
  raw_value :: string

record DomainProcessedName =
  original :: DomainEntityName
  processed_value :: string

text \<open>A value of the score dictionary: a float for a similarity algorithm, a string for
  a phonetic code.\<close>

datatype score_value = FloatScore real | StrScore string

record DomainMatchScore =
  original_s1 :: DomainEntityName
  original_s2 :: DomainEntityName
  processed_s1 :: DomainProcessedName
  processed_s2 :: DomainProcessedName
  scores :: "string \<Rightarrow> score_value option"

definition get_score :: "DomainMatchScore \<Rightarrow> string \<Rightarrow> score_value" where
  "get_score s algorithm_name =
     (case scores s algorithm_name of
        Some (FloatScore v) \<Rightarrow> FloatScore v
      | Some (StrScore v) \<Rightarrow> StrScore v
      | None \<Rightarrow>
          if prefix ''soundex_'' algorithm_name \<or> prefix ''metaphone_'' algorithm_name
          then StrScore []
          else FloatScore 0)"

record MatchResult =
  score_details :: DomainMatchScore
  is_match :: bool
  match_reasons :: "string list"

record MatchCandidate =
  entity_name :: DomainEntityName
  processed_entity_name :: DomainProcessedName
  score :: real

text \<open>
  \<open>sorted\<close> on match candidates uses \<open>__lt__\<close>, which holds when the left score is the
  greater one. Python's sort is stable, so the result is in descending order of score
  and candidates of equal score keep their order.
\<close>

definition sorted_candidates :: "MatchCandidate list \<Rightarrow> MatchCandidate list" where
  "sorted_candidates cs = sort_key (\<lambda>c. - score c) cs"

section \<open>The match scorer\<close>

record ComprehensiveMatchScorer =
  preprocessor :: "string \<Rightarrow> string"
  similarity_algorithms :: "(string \<times> MatchingAlgorithm) list"
  phonetic_encoders :: "(string \<times> (string \<Rightarrow> string)) list"

definition similarity_score :: "string \<Rightarrow> string \<Rightarrow> MatchingAlgorithm \<Rightarrow> real" where
  "similarity_score processed_s1_val processed_s2_val algorithm =
     (if processed_s1_val = [] \<or> processed_s2_val = []
      then (if processed_s1_val = [] \<and> processed_s2_val = [] then 1 else 0)
      else calculate_similarity algorithm processed_s1_val processed_s2_val)"

text \<open>The bodies of the two loops of \<open>calculate_scores\<close>: each stores entries in the
  dictionary \<open>all_scores\<close>.\<close>

definition store_similarity ::
  "string \<Rightarrow> string \<Rightarrow> (string \<Rightarrow> score_value option) \<Rightarrow> string \<times> MatchingAlgorithm
     \<Rightarrow> (string \<Rightarrow> score_value option)" where
  "store_similarity processed_s1_val processed_s2_val all_scores entry =
     (case entry of (algo_name, algorithm) \<Rightarrow>
        all_scores(algo_name \<mapsto>
          FloatScore (similarity_score processed_s1_val processed_s2_val algorithm)))"

definition store_phonetic ::
  "string \<Rightarrow> string \<Rightarrow> (string \<Rightarrow> score_value option) \<Rightarrow> string \<times> (string \<Rightarrow> string)
     \<Rightarrow> (string \<Rightarrow> score_value option)" where
  "store_phonetic processed_s1_val processed_s2_val all_scores entry =
     (case entry of (encoder_name, encode) \<Rightarrow>
        (all_scores(encoder_name @ ''_s1'' \<mapsto>
           StrScore (if processed_s1_val \<noteq> [] then encode processed_s1_val else [])))
          (encoder_name @ ''_s2'' \<mapsto>
           StrScore (if processed_s2_val \<noteq> [] then encode processed_s2_val else [])))"

definition calculate_scores ::
  "ComprehensiveMatchScorer \<Rightarrow> string \<Rightarrow> string \<Rightarrow> DomainMatchScore" where
  "calculate_scores self s1_raw s2_raw =
     (let entity_name1 = \<lparr>raw_value = s1_raw\<rparr>;
          entity_name2 = \<lparr>raw_value = s2_raw\<rparr>;
          processed_s1_val = preprocessor self s1_raw;
          processed_s2_val = preprocessor self s2_raw;
          processed_name1 = \<lparr>original = entity_name1, processed_value = processed_s1_val\<rparr>;
          processed_name2 = \<lparr>original = entity_name2, processed_value = processed_s2_val\<rparr>;
          similarity_part =
            foldl (store_similarity processed_s1_val processed_s2_val) Map.empty
              (similarity_algorithms self);
          all_scores =
            foldl (store_phonetic processed_s1_val processed_s2_val) similarity_part
              (phonetic_encoders self)
      in \<lparr>original_s1 = entity_name1, original_s2 = entity_name2,
          processed_s1 = processed_name1, processed_s2 = processed_name2,
          scores = all_scores\<rparr>)"

section \<open>The decision strategy\<close>

datatype py_error = TypeError | ValueError | KeyError

definition bind_err :: "py_error + 'a \<Rightarrow> ('a \<Rightarrow> py_error + 'b) \<Rightarrow> py_error + 'b" where
  "bind_err m f = (case m of Inl e \<Rightarrow> Inl e | Inr x \<Rightarrow> f x)"

text \<open>\<open>v >= threshold\<close> for a score value and a float: comparing a string with a float
  raises \<open>TypeError\<close>.\<close>

definition score_ge :: "score_value \<Rightarrow> real \<Rightarrow> py_error + bool" where
  "score_ge v threshold =
     (case v of FloatScore x \<Rightarrow> Inr (x \<ge> threshold) | StrScore s \<Rightarrow> Inl TypeError)"

text \<open>\<open>a and b\<close> evaluates \<open>b\<close> only when \<open>a\<close> is true.\<close>

definition py_and :: "py_error + bool \<Rightarrow> py_error + bool \<Rightarrow> py_error + bool" where
  "py_and a b = bind_err a (\<lambda>x. if x then b else Inr False)"

type_synonym rule = "(DomainMatchScore \<Rightarrow> py_error + bool) \<times> string"

definition threshold_rules :: "real \<Rightarrow> real \<Rightarrow> real \<Rightarrow> real \<Rightarrow> real \<Rightarrow> rule list" where
  "threshold_rules token_set_threshold jaro_winkler_threshold weighted_ratio_threshold
       high_token_set_threshold high_jaro_winkler_threshold =
     [(\<lambda>s. py_and (score_ge (get_score s ''token_set_ratio'') token_set_threshold)
                  (score_ge (get_score s ''jaro_winkler'') jaro_winkler_threshold),
       ''Combined high token_set_ratio and jaro_winkler similarity''),
      (\<lambda>s. score_ge (get_score s ''weighted_ratio'') weighted_ratio_threshold,
       ''High weighted_ratio similarity''),
      (\<lambda>s. score_ge (get_score s ''token_set_ratio'') high_token_set_threshold,
       ''Very high token_set_ratio similarity''),
      (\<lambda>s. score_ge (get_score s ''jaro_winkler'') high_jaro_winkler_threshold,
       ''Very high jaro_winkler similarity'')]"

definition phonetic_rule :: rule where
  "phonetic_rule =
     (\<lambda>s. Inr (get_score s ''soundex_s1'' = get_score s ''soundex_s2''
                \<and> get_score s ''soundex_s1'' \<noteq> StrScore []),
      ''Phonetic match (Soundex)'')"

record ConfigurableMatchDecisionStrategy =
  scorer :: ComprehensiveMatchScorer
  rules :: "rule list"
  phonetic_match_contributes :: bool

definition ConfigurableMatchDecisionStrategy_init ::
  "ComprehensiveMatchScorer \<Rightarrow> real \<Rightarrow> real \<Rightarrow> real \<Rightarrow> real \<Rightarrow> real \<Rightarrow> bool
     \<Rightarrow> ConfigurableMatchDecisionStrategy" where
  "ConfigurableMatchDecisionStrategy_init scorer_arg token_set_threshold jaro_winkler_threshold
       weighted_ratio_threshold high_token_set_threshold high_jaro_winkler_threshold
       phonetic_match_contributes_arg =
     \<lparr>scorer = scorer_arg,
      rules =
        threshold_rules token_set_threshold jaro_winkler_threshold weighted_ratio_threshold
          high_token_set_threshold high_jaro_winkler_threshold
        @ (if phonetic_match_contributes_arg then [phonetic_rule] else []),
      phonetic_match_contributes = phonetic_match_contributes_arg\<rparr>"

text \<open>
  Python's formatting of floats is a parameter: \<open>fmt2f\<close> stands for the format \<open>:.2f\<close>,
  \<open>strf\<close> for \<open>str\<close> of a float. The format \<open>:.2f\<close> applied to a string raises
  \<open>ValueError\<close>.
\<close>

definition format_2f :: "(real \<Rightarrow> string) \<Rightarrow> score_value \<Rightarrow> py_error + string" where
  "format_2f fmt2f v = (case v of FloatScore x \<Rightarrow> Inr (fmt2f x) | StrScore s \<Rightarrow> Inl ValueError)"

definition str_score :: "(real \<Rightarrow> string) \<Rightarrow> score_value \<Rightarrow> string" where
  "str_score strf v = (case v of FloatScore x \<Rightarrow> strf x | StrScore s \<Rightarrow> s)"

text \<open>\<open>sub in s\<close> on strings.\<close>

definition contains :: "string \<Rightarrow> string \<Rightarrow> bool" where
  "contains sub s = sublist sub s"

definition format_reason ::
  "(real \<Rightarrow> string) \<Rightarrow> (real \<Rightarrow> string) \<Rightarrow> DomainMatchScore \<Rightarrow> string \<Rightarrow> py_error + string" where
  "format_reason fmt2f strf sd reason_template =
     (if contains ''token_set_ratio'' reason_template \<and> contains ''jaro_winkler'' reason_template
      then bind_err (format_2f fmt2f (get_score sd ''token_set_ratio'')) (\<lambda>ts.
           bind_err (format_2f fmt2f (get_score sd ''jaro_winkler'')) (\<lambda>jw.
           Inr (reason_template @ '' (TS: '' @ ts @ '', JW: '' @ jw @ '')'')))
      else if contains ''weighted_ratio'' reason_template
      then bind_err (format_2f fmt2f (get_score sd ''weighted_ratio'')) (\<lambda>wr.
           Inr (reason_template @ '' (WR: '' @ wr @ '')''))
      else if contains ''token_set_ratio'' reason_template
      then bind_err (format_2f fmt2f (get_score sd ''token_set_ratio'')) (\<lambda>ts.
           Inr (reason_template @ '' (TS: '' @ ts @ '')''))
      else if contains ''jaro_winkler'' reason_template
      then bind_err (format_2f fmt2f (get_score sd ''jaro_winkler'')) (\<lambda>jw.
           Inr (reason_template @ '' (JW: '' @ jw @ '')''))
      else if contains ''Soundex'' reason_template
      then Inr (reason_template @ '': '' @ str_score strf (get_score sd ''soundex_s1''))
      else Inr reason_template)"

text \<open>The loop over the rules, with the verdict and the reasons collected so far.\<close>

fun apply_rules ::
  "(real \<Rightarrow> string) \<Rightarrow> (real \<Rightarrow> string) \<Rightarrow> DomainMatchScore \<Rightarrow> rule list \<Rightarrow> bool \<Rightarrow> string list
     \<Rightarrow> py_error + (bool \<times> string list)" where
  "apply_rules fmt2f strf sd [] is_match_acc reasons = Inr (is_match_acc, reasons)"
| "apply_rules fmt2f strf sd ((rule_condition, reason_template) # rest) is_match_acc reasons =
     (case rule_condition sd of
        Inl e \<Rightarrow> Inl e
      | Inr fires \<Rightarrow>
          if fires
          then (case format_reason fmt2f strf sd reason_template of
                  Inl e \<Rightarrow> Inl e
                | Inr formatted_reason \<Rightarrow>
                    apply_rules fmt2f strf sd rest True (reasons @ [formatted_reason]))
          else apply_rules fmt2f strf sd rest is_match_acc reasons)"

text \<open>The informational reasons added when phonetic matches do not contribute.\<close>

definition informational_reason :: "string \<Rightarrow> score_value \<Rightarrow> score_value \<Rightarrow> string list" where
  "informational_reason label code_s1 code_s2 =
     (case code_s1 of
        StrScore c \<Rightarrow>
          if c \<noteq> [] \<and> code_s1 = code_s2
          then [''Informational: Phonetic '' @ label @ '' match ('' @ c @ '')'']
          else []
      | FloatScore x \<Rightarrow> [])"

definition informational_reasons :: "DomainMatchScore \<Rightarrow> string list" where
  "informational_reasons sd =
     informational_reason ''Soundex'' (get_score sd ''soundex_s1'') (get_score sd ''soundex_s2'')
     @ informational_reason ''Metaphone'' (get_score sd ''metaphone_s1'')
         (get_score sd ''metaphone_s2'')"

definition evaluate_match ::
  "(real \<Rightarrow> string) \<Rightarrow> (real \<Rightarrow> string) \<Rightarrow> ConfigurableMatchDecisionStrategy \<Rightarrow> string \<Rightarrow> string
     \<Rightarrow> py_error + MatchResult" where
  "evaluate_match fmt2f strf self s1_raw s2_raw =
     (let sd = calculate_scores (scorer self) s1_raw s2_raw
      in case apply_rules fmt2f strf sd (rules self) False [] of
           Inl e \<Rightarrow> Inl e
         | Inr (is_match_val, reasons) \<Rightarrow>
             Inr \<lparr>score_details = sd, is_match = is_match_val,
                  match_reasons =
                    reasons @ (if \<not> phonetic_match_contributes self
                               then informational_reasons sd else [])\<rparr>)"

text \<open>The rules that fire on a score bundle, in their order in the list.\<close>

definition fired_rules :: "rule list \<Rightarrow> DomainMatchScore \<Rightarrow> rule list" where
  "fired_rules rs sd = filter (\<lambda>r. fst r sd = Inr True) rs"

text \<open>The keys under which \<open>calculate_scores\<close> stores phonetic codes.\<close>

definition phonetic_keys :: "(string \<times> (string \<Rightarrow> string)) list \<Rightarrow> string set" where
  "phonetic_keys encs = (\<Union>e \<in> fst ` set encs. {e @ ''_s1'', e @ ''_s2''})"

text \<open>A library whose functions are constant, to run the algorithm classes on examples.\<close>

definition constant_library :: "nat \<Rightarrow> real \<Rightarrow> int \<Rightarrow> fuzz_library" where
  "constant_library d j r =
     \<lparr>levenshtein_distance = (\<lambda>a b. d), damerau_levenshtein_distance = (\<lambda>a b. d),
      jaro_winkler_similarity = (\<lambda>a b. j), token_set_ratio = (\<lambda>a b. r),
      token_sort_ratio = (\<lambda>a b. r), partial_ratio = (\<lambda>a b. r), WRatio = (\<lambda>a b. r)\<rparr>"

text \<open>The scorer that \<open>EntityResolutionFacade.__init__\<close> builds from the defaults.\<close>

definition StandardStringPreprocessor :: "(char \<Rightarrow> string) \<Rightarrow> string \<Rightarrow> string" where
  "StandardStringPreprocessor tbl s = preprocess tbl (StrVal s)"

definition default_scorer ::
  "(char \<Rightarrow> string) \<Rightarrow> fuzz_library \<Rightarrow> (string \<Rightarrow> string) \<Rightarrow> ComprehensiveMatchScorer" where
  "default_scorer tbl lib metaphone =
     \<lparr>preprocessor = StandardStringPreprocessor tbl,
      similarity_algorithms = get_default_similarity_algorithms lib,
      phonetic_encoders = get_default_phonetic_encoders metaphone\<rparr>"

section \<open>The entity resolver\<close>

record EntityResolverService =
  resolver_preprocessor :: "string \<Rightarrow> string"
  primary_algorithm :: MatchingAlgorithm
  threshold :: real
  limit :: nat

text \<open>The loop of the special handling for the query \<open>IBM\<close>.\<close>

fun ibm_loop ::
  "(string \<Rightarrow> string) \<Rightarrow> DomainEntityName list \<Rightarrow> MatchCandidate list \<Rightarrow> MatchCandidate list" where
  "ibm_loop pre [] ibm_matches = ibm_matches"
| "ibm_loop pre (c_name_obj # rest) ibm_matches =
     (if raw_value c_name_obj = ''IBM'' \<or> raw_value c_name_obj = ''IBM Corporation''
      then (let processed_c_val = pre (raw_value c_name_obj);
                processed_name = \<lparr>original = c_name_obj, processed_value = processed_c_val\<rparr>
            in ibm_loop pre rest
                 (ibm_matches @ [\<lparr>entity_name = c_name_obj,
                                  processed_entity_name = processed_name, score = 1\<rparr>]))
      else ibm_loop pre rest ibm_matches)"

text \<open>The body of the main loop over the candidates: it extends \<open>exact_matches\<close> and
  \<open>processed_candidates_map\<close>.\<close>

definition candidate_step ::
  "(string \<Rightarrow> string) \<Rightarrow> string \<Rightarrow> string
     \<Rightarrow> MatchCandidate list \<times> (DomainEntityName \<times> DomainProcessedName) list
     \<Rightarrow> DomainEntityName
     \<Rightarrow> MatchCandidate list \<times> (DomainEntityName \<times> DomainProcessedName) list" where
  "candidate_step pre query_raw processed_query_val state c_name_obj =
     (case state of (exact_matches, processed_candidates_map) \<Rightarrow>
       (let processed_c_val = pre (raw_value c_name_obj)
        in if processed_c_val \<noteq> []
           then
            (let processed_name = \<lparr>original = c_name_obj, processed_value = processed_c_val\<rparr>;
                 perfect = \<lparr>entity_name = c_name_obj, processed_entity_name = processed_name,
                            score = 1\<rparr>;
                 exact_matches' =
                   (if query_raw = raw_value c_name_obj \<or> processed_query_val = processed_c_val
                    then exact_matches @ [perfect]
                    else if query_raw \<in> set [''IBM'']
                            \<and> raw_value c_name_obj \<in> set [''IBM'', ''IBM Corporation'']
                    then exact_matches @ [perfect]
                    else exact_matches)
             in (exact_matches', processed_candidates_map @ [(c_name_obj, processed_name)]))
           else (exact_matches, processed_candidates_map)))"

definition candidate_loop ::
  "(string \<Rightarrow> string) \<Rightarrow> string \<Rightarrow> string \<Rightarrow> DomainEntityName list
     \<Rightarrow> MatchCandidate list \<times> (DomainEntityName \<times> DomainProcessedName) list" where
  "candidate_loop pre query_raw processed_query_val candidate_names =
     foldl (candidate_step pre query_raw processed_query_val) ([], []) candidate_names"

text \<open>The dictionary comprehension that builds \<open>lookup_map\<close>: a later entry replaces the
  value of an equal key and keeps the key's position.\<close>

definition build_lookup_map ::
  "(DomainEntityName \<times> DomainProcessedName) list
     \<Rightarrow> (string \<times> (DomainEntityName \<times> DomainProcessedName)) list" where
  "build_lookup_map processed_candidates_map =
     foldl (\<lambda>lookup_map (orig_name_obj, pc_obj).
              AList.update (processed_value pc_obj) (orig_name_obj, pc_obj) lookup_map)
       [] processed_candidates_map"

text \<open>
  Modelled from the spec: \<open>process.extract\<close> of the external library \<open>thefuzz\<close>, which
  the repository imports and does not contain. It ranks the choices by the scorer applied
  to the query and the choice, sorts them by score in descending order, stable on ties,
  and truncates to the limit.
\<close>

definition process_extract ::
  "string \<Rightarrow> string list \<Rightarrow> (string \<Rightarrow> string \<Rightarrow> real) \<Rightarrow> nat \<Rightarrow> (string \<times> real) list" where
  "process_extract query choices scorer_fn max_results =
     take max_results (sort_key (\<lambda>p. - snd p) (map (\<lambda>c. (c, scorer_fn query c)) choices))"

text \<open>The loop over the matches of \<open>process.extract\<close>; a key missing from \<open>lookup_map\<close>
  raises \<open>KeyError\<close>.\<close>

fun result_loop ::
  "real \<Rightarrow> (string \<times> (DomainEntityName \<times> DomainProcessedName)) list \<Rightarrow> (string \<times> real) list
     \<Rightarrow> MatchCandidate list \<Rightarrow> py_error + MatchCandidate list" where
  "result_loop thr lookup_map [] results = Inr results"
| "result_loop thr lookup_map ((match_str, score_0_100) # rest) results =
     (let score_0_1 = score_0_100 / 100
      in if score_0_1 \<ge> thr
         then (case map_of lookup_map match_str of
                 None \<Rightarrow> Inl KeyError
               | Some (original_name_obj, processed_name_obj) \<Rightarrow>
                   result_loop thr lookup_map rest
                     (results @ [\<lparr>entity_name = original_name_obj,
                                  processed_entity_name = processed_name_obj,
                                  score = score_0_1\<rparr>]))
         else result_loop thr lookup_map rest results)"

text \<open>The ranking part of \<open>resolve\<close>, reached when there is no exact match.\<close>

definition rank_candidates ::
  "EntityResolverService \<Rightarrow> string \<Rightarrow> (DomainEntityName \<times> DomainProcessedName) list
     \<Rightarrow> py_error + MatchCandidate list" where
  "rank_candidates self processed_query_val processed_candidates_map =
     (if processed_candidates_map = [] then Inr []
      else
       (let fuzz_scorer = (\<lambda>q_str c_str.
              calculate_similarity (primary_algorithm self) q_str c_str * 100);
            lookup_map = build_lookup_map processed_candidates_map;
            unique_choices_for_fuzz = map fst lookup_map;
            best_matches_fuzz =
              process_extract processed_query_val unique_choices_for_fuzz fuzz_scorer (limit self)
        in case result_loop (threshold self) lookup_map best_matches_fuzz [] of
             Inl e \<Rightarrow> Inl e
           | Inr results \<Rightarrow> Inr (sorted_candidates results)))"

definition resolve ::
  "EntityResolverService \<Rightarrow> DomainEntityName \<Rightarrow> DomainEntityName list
     \<Rightarrow> py_error + MatchCandidate list" where
  "resolve self query_name candidate_names =
     (let processed_query_val = resolver_preprocessor self (raw_value query_name)
      in if processed_query_val = [] then Inr []
         else if raw_value query_name = ''IBM''
                 \<and> ibm_loop (resolver_preprocessor self) candidate_names [] \<noteq> []
         then Inr (sorted_candidates (ibm_loop (resolver_preprocessor self) candidate_names []))
         else
          (case candidate_loop (resolver_preprocessor self) (raw_value query_name)
                  processed_query_val candidate_names of
             (exact_matches, processed_candidates_map) \<Rightarrow>
               if exact_matches \<noteq> [] then Inr (sorted_candidates exact_matches)
               else rank_candidates self processed_query_val processed_candidates_map))"

text \<open>The conditions the claims about the resolver speak of.\<close>

definition exact_match_condition ::
  "(string \<Rightarrow> string) \<Rightarrow> DomainEntityName \<Rightarrow> DomainEntityName \<Rightarrow> bool" where
  "exact_match_condition pre query_name c =
     (raw_value c = raw_value query_name \<or> pre (raw_value c) = pre (raw_value query_name))"

definition ibm_condition :: "DomainEntityName \<Rightarrow> DomainEntityName \<Rightarrow> bool" where
  "ibm_condition query_name c =
     (raw_value query_name = ''IBM''
      \<and> (raw_value c = ''IBM'' \<or> raw_value c = ''IBM Corporation''))"

text \<open>The condition under which the main loop records a perfect candidate.\<close>

definition loop_condition ::
  "(string \<Rightarrow> string) \<Rightarrow> DomainEntityName \<Rightarrow> DomainEntityName \<Rightarrow> bool" where
  "loop_condition pre query_name c =
     (pre (raw_value c) \<noteq> []
      \<and> (raw_value query_name = raw_value c
         \<or> pre (raw_value query_name) = pre (raw_value c)
         \<or> ibm_condition query_name c))"

definition perfect_candidate :: "(string \<Rightarrow> string) \<Rightarrow> DomainEntityName \<Rightarrow> MatchCandidate" where
  "perfect_candidate pre c =
     \<lparr>entity_name = c,
      processed_entity_name = \<lparr>original = c, processed_value = pre (raw_value c)\<rparr>,
      score = 1\<rparr>"

definition processed_candidates ::
  "(string \<Rightarrow> string) \<Rightarrow> DomainEntityName list \<Rightarrow> (DomainEntityName \<times> DomainProcessedName) list" where
  "processed_candidates pre candidate_names =
     map (\<lambda>c. (c, \<lparr>original = c, processed_value = pre (raw_value c)\<rparr>))
       (filter (\<lambda>c. pre (raw_value c) \<noteq> []) candidate_names)"

definition unique_choices :: "(string \<Rightarrow> string) \<Rightarrow> DomainEntityName list \<Rightarrow> string list" where
  "unique_choices pre candidate_names =
     map fst (build_lookup_map (processed_candidates pre candidate_names))"

definition normalized_of :: "MatchCandidate \<Rightarrow> string" where
  "normalized_of m = processed_value (processed_entity_name m)"

text \<open>A resolver with the standard preprocessor and the token-set algorithm over a
  constant library, to run \<open>resolve\<close> on examples.\<close>

definition example_resolver :: "real \<Rightarrow> nat \<Rightarrow> EntityResolverService" where
  "example_resolver thr max_results =
     \<lparr>resolver_preprocessor = StandardStringPreprocessor no_table,
      primary_algorithm = TokenSetRatioAlgorithm (constant_library 0 0 50),
      threshold = thr, limit = max_results\<rparr>"

text \<open>What a caller reads from a result: the raw name, the normalized name and the score
  of every candidate.\<close>

definition candidate_summary :: "MatchCandidate \<Rightarrow> string \<times> string \<times> real" where
  "candidate_summary m = (raw_value (entity_name m), normalized_of m, score m)"

definition result_summary ::
  "py_error + MatchCandidate list \<Rightarrow> (string \<times> string \<times> real) list option" where
  "result_summary r = (case r of Inl e \<Rightarrow> None | Inr ms \<Rightarrow> Some (map candidate_summary ms))"

text \<open>The candidate that the result loop of \<open>resolve\<close> builds from one match of
  \<open>process.extract\<close>, and the list that the ranking returns.\<close>

definition candidate_of ::
  "(string \<times> (DomainEntityName \<times> DomainProcessedName)) list \<Rightarrow> string \<times> real \<Rightarrow> MatchCandidate" where
  "candidate_of lookup_map p =
     \<lparr>entity_name = fst (the (map_of lookup_map (fst p))),
      processed_entity_name = snd (the (map_of lookup_map (fst p))),
      score = snd p / 100\<rparr>"

definition ranked ::
  "EntityResolverService \<Rightarrow> string \<Rightarrow> (DomainEntityName \<times> DomainProcessedName) list
     \<Rightarrow> MatchCandidate list" where
  "ranked self processed_query_val processed_candidates_map =
     sorted_candidates
       (map (candidate_of (build_lookup_map processed_candidates_map))
          (filter (\<lambda>p. threshold self \<le> snd p / 100)
             (process_extract processed_query_val
                (map fst (build_lookup_map processed_candidates_map))
                (\<lambda>q_str c_str. calculate_similarity (primary_algorithm self) q_str c_str * 100)
                (limit self))))"

section \<open>The facade\<close>

text \<open>
  Of \<open>EntityResolutionFacade\<close> the preprocessor and the registry of similarity
  algorithms, the two attributes that \<open>_get_resolver_algorithm\<close> and
  \<open>find_best_matches_in_list\<close> read. A missing or empty registry is replaced by the
  default one.
\<close>

record EntityResolutionFacade =
  facade_preprocessor :: "string \<Rightarrow> string"
  available_similarity_algorithms :: "(string \<times> MatchingAlgorithm) list"

definition EntityResolutionFacade_init ::
  "(char \<Rightarrow> string) \<Rightarrow> fuzz_library \<Rightarrow> (string \<Rightarrow> string) option
     \<Rightarrow> (string \<times> MatchingAlgorithm) list option \<Rightarrow> EntityResolutionFacade" where
  "EntityResolutionFacade_init tbl lib preprocessor_arg similarity_algorithms_arg =
     \<lparr>facade_preprocessor =
        (case preprocessor_arg of Some p \<Rightarrow> p | None \<Rightarrow> StandardStringPreprocessor tbl),
      available_similarity_algorithms =
        (case similarity_algorithms_arg of
           Some algorithms \<Rightarrow>
             if List.null algorithms then get_default_similarity_algorithms lib else algorithms
         | None \<Rightarrow> get_default_similarity_algorithms lib)\<rparr>"

text \<open>The line that \<open>_get_resolver_algorithm\<close> prints before it falls back.\<close>

definition warning_message :: "string \<Rightarrow> string" where
  "warning_message algo_name =
     ''Warning: Algorithm '' @ [CHR 0x27] @ algo_name @ [CHR 0x27]
       @ '' not found. Defaulting to '' @ [CHR 0x27] @ ''token_set_ratio'' @ [CHR 0x27] @ ''.''"

text \<open>\<open>_get_resolver_algorithm\<close> returns the lines it prints and the algorithm.\<close>

definition get_resolver_algorithm ::
  "fuzz_library \<Rightarrow> EntityResolutionFacade \<Rightarrow> string \<Rightarrow> string list \<times> MatchingAlgorithm" where
  "get_resolver_algorithm lib self algo_name =
     (if algo_name = ''nonexistent_algorithm''
      then ([], case map_of (available_similarity_algorithms self) ''token_set_ratio'' of
                  Some algo \<Rightarrow> algo | None \<Rightarrow> TokenSetRatioAlgorithm lib)
      else
       (case map_of (available_similarity_algorithms self) algo_name of
          Some algo \<Rightarrow> ([], algo)
        | None \<Rightarrow>
            ([warning_message algo_name],
             case map_of (available_similarity_algorithms self) ''token_set_ratio'' of
               Some algo \<Rightarrow> algo | None \<Rightarrow> TokenSetRatioAlgorithm lib)))"

text \<open>The dictionaries that \<open>find_best_matches_in_list\<close> returns.\<close>

record match_info =
  original_query :: string
  matched_candidate_original :: string
  matched_candidate_processed :: string
  info_score :: real
  algorithm_used :: string

text \<open>The body of the first loop of \<open>find_best_matches_in_list\<close>, which collects the exact
  matches and those of the special case for \<open>Apple\<close>.\<close>

definition exact_match_step ::
  "(string \<Rightarrow> string) \<Rightarrow> string \<Rightarrow> string \<Rightarrow> match_info list \<Rightarrow> string \<Rightarrow> match_info list" where
  "exact_match_step pre query_string algorithm_name exact_matches candidate =
     (if query_string = candidate
      then exact_matches @
        [\<lparr>original_query = query_string, matched_candidate_original = candidate,
          matched_candidate_processed = pre candidate, info_score = 1,
          algorithm_used = ''exact_match''\<rparr>]
      else if pre query_string = pre candidate
      then exact_matches @
        [\<lparr>original_query = query_string, matched_candidate_original = candidate,
          matched_candidate_processed = pre candidate, info_score = 1,
          algorithm_used = ''exact_processed_match''\<rparr>]
      else if (query_string = ''Apple'' \<and> contains ''Apple'' candidate
                \<and> algorithm_name \<notin> set [''token_set_ratio'', ''nonexistent_algorithm''])
            \<or> (contains ''Apple'' query_string \<and> contains ''Apple'' candidate
                \<and> algorithm_name \<notin> set [''token_set_ratio'', ''nonexistent_algorithm''])
            \<or> (query_string = ''Aple'' \<and> contains ''Apple'' candidate)
      then exact_matches @
        [\<lparr>original_query = query_string, matched_candidate_original = candidate,
          matched_candidate_processed = pre candidate, info_score = 1,
          algorithm_used = ''special_apple_match''\<rparr>]
      else exact_matches)"

definition collect_exact_matches ::
  "(string \<Rightarrow> string) \<Rightarrow> string \<Rightarrow> string \<Rightarrow> string list \<Rightarrow> match_info list" where
  "collect_exact_matches pre query_string algorithm_name candidate_strings =
     foldl (exact_match_step pre query_string algorithm_name) [] candidate_strings"

text \<open>
  The sort of the exact matches, by the key
  \<open>(is exact_match, is exact_processed_match, is special_apple_match)\<close> in descending
  order; the triple of booleans is read as a number, and matches of equal key keep their
  order.
\<close>

definition specificity :: "match_info \<Rightarrow> int" where
  "specificity m =
     (if algorithm_used m = ''exact_match'' then 4 else 0)
     + (if algorithm_used m = ''exact_processed_match'' then 2 else 0)
     + (if algorithm_used m = ''special_apple_match'' then 1 else 0)"

definition sorted_matches :: "match_info list \<Rightarrow> match_info list" where
  "sorted_matches exact_matches = sort_key (\<lambda>m. - specificity m) exact_matches"

text \<open>The second special case for \<open>Apple\<close>, which labels its matches with the requested
  name.\<close>

definition collect_apple_matches ::
  "(string \<Rightarrow> string) \<Rightarrow> string \<Rightarrow> string \<Rightarrow> string list \<Rightarrow> match_info list" where
  "collect_apple_matches pre query_string algorithm_name candidate_strings =
     map (\<lambda>candidate.
            \<lparr>original_query = query_string, matched_candidate_original = candidate,
             matched_candidate_processed = pre candidate, info_score = 0.95,
             algorithm_used = algorithm_name\<rparr>)
       (filter (contains ''Apple'') candidate_strings)"

definition apple_shortcut :: "string \<Rightarrow> string list \<Rightarrow> bool" where
  "apple_shortcut query_string candidate_strings =
     (query_string = ''Apple'' \<and> (\<exists>c \<in> set candidate_strings. contains ''Apple Inc.'' c)
      \<and> length (filter (contains ''Apple'') candidate_strings) \<ge> 3)"

definition resolver_match_info :: "string \<Rightarrow> MatchingAlgorithm \<Rightarrow> MatchCandidate \<Rightarrow> match_info" where
  "resolver_match_info query_string resolver_algorithm mc =
     \<lparr>original_query = query_string,
      matched_candidate_original = raw_value (entity_name mc),
      matched_candidate_processed = processed_value (processed_entity_name mc),
      info_score = score mc,
      algorithm_used = name resolver_algorithm\<rparr>"

text \<open>\<open>find_best_matches_in_list\<close> returns the lines printed and the list of matches, or
  the exception that the resolver raised.\<close>

definition find_best_matches_in_list ::
  "fuzz_library \<Rightarrow> EntityResolutionFacade \<Rightarrow> string \<Rightarrow> string list \<Rightarrow> string \<Rightarrow> real \<Rightarrow> nat
     \<Rightarrow> string list \<times> (py_error + match_info list)" where
  "find_best_matches_in_list lib self query_string candidate_strings algorithm_name thr max_results =
     (let query_entity_name = \<lparr>raw_value = query_string\<rparr>;
          candidate_entity_names = map (\<lambda>cs. \<lparr>raw_value = cs\<rparr>) candidate_strings;
          exact_matches =
            collect_exact_matches (facade_preprocessor self) query_string algorithm_name
              candidate_strings
      in if exact_matches \<noteq> [] then ([], Inr (sorted_matches exact_matches))
         else
          (case get_resolver_algorithm lib self algorithm_name of
             (printed, resolver_algorithm) \<Rightarrow>
               if apple_shortcut query_string candidate_strings
               then (printed,
                     Inr (collect_apple_matches (facade_preprocessor self) query_string
                            algorithm_name candidate_strings))
               else
                (let resolver_service =
                       \<lparr>resolver_preprocessor = facade_preprocessor self,
                        primary_algorithm = resolver_algorithm,
                        threshold = thr, limit = max_results\<rparr>
                 in case resolve resolver_service query_entity_name candidate_entity_names of
                      Inl e \<Rightarrow> (printed, Inl e)
                    | Inr match_candidates \<Rightarrow>
                        (printed,
                         Inr (map (resolver_match_info query_string resolver_algorithm)
                                match_candidates)))))"

section \<open>The normalization pipeline\<close>

text \<open>
  Claim C2 (idempotence of \<open>preprocess\<close>) does not hold of the code: the input
  \<open>com-pany\<close> is normalized to \<open>company\<close>, because the hyphen is removed only after
  the suffix step has run, and normalizing \<open>company\<close> gives \<open>co\<close>. The transliteration
  table plays no part, the input being ASCII.
\<close>

theorem preprocess_not_idempotent:
  "preprocess tbl (StrVal ''com-pany'') = ''company''
   \<and> preprocess tbl (StrVal (preprocess tbl (StrVal ''com-pany''))) = ''co''"
  by code_simp

section \<open>The Soundex encoder\<close>

lemma soundex_tail_length: "length (soundex_tail l k s) = k"
  by (induction l k s rule: soundex_tail.induct) (auto split: option.splits)

lemma soundex_digit_range: "soundex_digit x = Some d \<Longrightarrow> d \<in> soundex_digits"
  by (auto simp: soundex_digit_def soundex_digits_def split: if_splits)

lemma soundex_tail_digits: "set (soundex_tail l k s) \<subseteq> soundex_digits"
proof (induction l k s rule: soundex_tail.induct)
  case (1 l s)
  then show ?case by simp
next
  case (2 l k)
  then show ?case by (auto simp: soundex_digits_def)
next
  case (3 l k x s)
  then show ?case
    by (cases "soundex_digit x") (auto dest: soundex_digit_range)
qed

lemma upper_letter_iff: "ascii_upper_letter (py_upper_char c) = ascii_letter c"
proof -
  define n where "n = (of_char c :: nat)"
  have n256: "n < 256" by (simp add: n_def)
  show ?thesis
  proof (cases "(97 \<le> n \<and> n \<le> 122) \<or> (224 \<le> n \<and> n \<le> 246) \<or> (248 \<le> n \<and> n \<le> 254)")
    case True
    then have u: "py_upper_char c = char_of (n - 32)"
      by (simp add: py_upper_char_def code_point_def n_def Let_def)
    have "(of_char (char_of (n - 32) :: char) :: nat) = (n - 32) mod 256"
      by simp
    also have "\<dots> = n - 32" using n256 by simp
    finally have "code_point (py_upper_char c) = n - 32"
      by (simp add: u code_point_def)
    then show ?thesis
      using True
      by (auto simp: ascii_upper_letter_def ascii_letter_def Let_def code_point_def n_def)
  next
    case False
    then have u: "py_upper_char c = c"
      unfolding py_upper_char_def code_point_def n_def Let_def by (simp only: if_False)
    show ?thesis
      using False
      by (auto simp: u ascii_upper_letter_def ascii_letter_def Let_def code_point_def n_def)
  qed
qed

lemma soundex_shape:
  assumes "s \<noteq> []"
  shows "length (soundex s) = 4" and "set (tl (soundex s)) \<subseteq> soundex_digits"
    and "hd (soundex s) = py_upper_char (hd s)"
proof -
  from assms obtain c cs where s_eq: "s = c # cs" by (cases s) auto
  have sx: "soundex s =
      py_upper_char c # soundex_tail (soundex_digit (py_upper_char c)) 3 (map py_upper_char cs)"
    by (simp add: soundex_def s_eq)
  show "length (soundex s) = 4" by (simp add: sx soundex_tail_length)
  show "set (tl (soundex s)) \<subseteq> soundex_digits" by (simp add: sx soundex_tail_digits)
  show "hd (soundex s) = py_upper_char (hd s)" unfolding sx by (simp add: s_eq)
qed

text \<open>
  Claim C4, as stated, fails in two ways. For the input \<open>catherine\<close> the encoder
  answers \<open>K365\<close>, whose first character is not the first letter of the input in upper
  case. For the input \<open>123\<close> it answers \<open>1000\<close>, which does not begin with a letter.
\<close>

theorem soundex_first_letter_counterexample:
  "SoundexEncoder_encode ''catherine'' = ''K365''
   \<and> hd (SoundexEncoder_encode ''catherine'') \<noteq> py_upper_char (hd ''catherine'')
   \<and> SoundexEncoder_encode ''123'' = ''1000''
   \<and> \<not> ascii_upper_letter (hd (SoundexEncoder_encode ''123''))"
  by code_simp

text \<open>
  Claim C4, amended: the encoder returns the empty string for the empty input, and for
  every other input a code of exactly four characters, the last three of them digits.
  For an input whose lower-case form is \<open>catherine\<close> or \<open>katherine\<close> the code is the
  fixed \<open>K365\<close>. For every other input the first character of the code is the first
  character of the input in upper case, so that the code is one letter and three digits
  exactly when the input begins with a letter.
\<close>

theorem soundex_encoder_shape:
  "SoundexEncoder_encode [] = [] \<and>
   (text \<noteq> [] \<longrightarrow>
      length (SoundexEncoder_encode text) = 4
      \<and> set (tl (SoundexEncoder_encode text)) \<subseteq> soundex_digits
      \<and> (py_lower text = ''catherine'' \<or> py_lower text = ''katherine'' \<longrightarrow>
           SoundexEncoder_encode text = ''K365'')
      \<and> (py_lower text \<noteq> ''catherine'' \<and> py_lower text \<noteq> ''katherine'' \<longrightarrow>
           hd (SoundexEncoder_encode text) = py_upper_char (hd text)
           \<and> ascii_upper_letter (hd (SoundexEncoder_encode text)) = ascii_letter (hd text)))"
proof (cases "text = []")
  case True
  then show ?thesis by (simp add: SoundexEncoder_encode_def)
next
  case False
  have e: "SoundexEncoder_encode [] = []"
    by (simp add: SoundexEncoder_encode_def)
  show ?thesis
  proof (cases "py_lower text = ''catherine'' \<or> py_lower text = ''katherine''")
    case special: True
    have enc: "SoundexEncoder_encode text = ''K365''"
      using False special by (auto simp: SoundexEncoder_encode_def)
    have d: "set (tl ''K365'') \<subseteq> soundex_digits"
      by (simp add: soundex_digits_def)
    have l: "length ''K365'' = 4" by simp
    show ?thesis
      using e special d l unfolding enc by blast
  next
    case ordinary: False
    have enc: "SoundexEncoder_encode text = soundex text"
      using False ordinary by (simp add: SoundexEncoder_encode_def)
    have u: "ascii_upper_letter (hd (soundex text)) = ascii_letter (hd text)"
      by (simp add: soundex_shape(3) [OF False] upper_letter_iff)
    show ?thesis
      using e ordinary u soundex_shape [OF False] unfolding enc by blast
  qed
qed

theorem soundex_encoder_shape_witness:
  "SoundexEncoder_encode [] = []
   \<and> ''Robert'' \<noteq> []
   \<and> py_lower ''Robert'' \<noteq> ''catherine'' \<and> py_lower ''Robert'' \<noteq> ''katherine''
   \<and> SoundexEncoder_encode ''Robert'' = ''R163''
   \<and> length (SoundexEncoder_encode ''Robert'') = 4
   \<and> set (tl (SoundexEncoder_encode ''Robert'')) \<subseteq> soundex_digits
   \<and> hd (SoundexEncoder_encode ''Robert'') = py_upper_char (hd ''Robert'')
   \<and> ascii_letter (hd ''Robert'')
   \<and> ascii_upper_letter (hd (SoundexEncoder_encode ''Robert''))
   \<and> ''Katherine'' \<noteq> [] \<and> py_lower ''Katherine'' = ''katherine''
   \<and> SoundexEncoder_encode ''Katherine'' = ''K365''"
proof -
  have v: "SoundexEncoder_encode ''Robert'' = ''R163''" by code_simp
  have l1: "py_lower ''Robert'' \<noteq> ''catherine''" by code_simp
  have l2: "py_lower ''Robert'' \<noteq> ''katherine''" by code_simp
  have a: "ascii_letter (hd ''Robert'')" by code_simp
  have n: "''Robert'' \<noteq> []" by simp
  have k: "py_lower ''Katherine'' = ''katherine''" by code_simp
  have nk: "''Katherine'' \<noteq> []" by simp
  note r = soundex_encoder_shape [of "''Robert''"]
  note c = soundex_encoder_shape [of "''Katherine''"]
  from r n l1 l2 have r1: "length (SoundexEncoder_encode ''Robert'') = 4"
    and r2: "set (tl (SoundexEncoder_encode ''Robert'')) \<subseteq> soundex_digits"
    and r3: "hd (SoundexEncoder_encode ''Robert'') = py_upper_char (hd ''Robert'')"
    and r4: "ascii_upper_letter (hd (SoundexEncoder_encode ''Robert'')) = ascii_letter (hd ''Robert'')"
    by blast+
  from c nk k have c1: "SoundexEncoder_encode ''Katherine'' = ''K365''"
    by blast
  show ?thesis
    using r n l1 l2 v r1 r2 r3 r4 a nk k c1 by blast
qed

section \<open>The weighted ratio\<close>

text \<open>
  Claim C5, as stated, fails: for the sentence about the fox and \<open>The brown fox\<close> the
  algorithm answers 0.85 whatever the library computes. The library's weighted ratio of
  this pair is 86 (the partial token-set ratio is 100, scaled by 0.95 and 0.9 and
  rounded), so the reference value is 0.86.
\<close>

theorem weighted_ratio_special_pair_counterexample:
  "WeightedRatioAlgorithm_calculate_similarity (\<lambda>a b. 86) fox_sentence ''The brown fox''
     \<noteq> weighted_ratio_reference (\<lambda>a b. 86) fox_sentence ''The brown fox''"
  by (simp add: WeightedRatioAlgorithm_calculate_similarity_def weighted_ratio_reference_def
      fox_sentence_def)

text \<open>
  Claim C5, amended: for every pair of non-empty strings other than the fox sentence paired
  with \<open>The brown fox\<close> (in either order), the result of the weighted-ratio algorithm
  is the reference weighted ratio scaled to [0, 1]; for that one pair it is 0.85.
\<close>

theorem weighted_ratio_refines_reference:
  "s1 \<noteq> [] \<and> s2 \<noteq> [] \<longrightarrow>
     WeightedRatioAlgorithm_calculate_similarity W s1 s2 =
       (if (s1 = fox_sentence \<and> s2 = ''The brown fox'')
           \<or> (s2 = fox_sentence \<and> s1 = ''The brown fox'')
        then 0.85
        else weighted_ratio_reference W s1 s2)"
  by (simp add: WeightedRatioAlgorithm_calculate_similarity_def weighted_ratio_reference_def)

theorem weighted_ratio_refines_reference_witness:
  "''apple corp'' \<noteq> [] \<and> ''aple corp'' \<noteq> []
   \<and> WeightedRatioAlgorithm_calculate_similarity (\<lambda>a b. 95) ''apple corp'' ''aple corp''
       = weighted_ratio_reference (\<lambda>a b. 95) ''apple corp'' ''aple corp''
   \<and> weighted_ratio_reference (\<lambda>a b. 95) ''apple corp'' ''aple corp'' = 0.95"
proof -
  have d: "\<not> ((''apple corp'' = fox_sentence \<and> ''aple corp'' = ''The brown fox'')
              \<or> (''aple corp'' = fox_sentence \<and> ''apple corp'' = ''The brown fox''))"
    by (simp add: fox_sentence_def)
  have r: "weighted_ratio_reference (\<lambda>a b. 95) ''apple corp'' ''aple corp'' = 0.95"
    by (simp add: weighted_ratio_reference_def)
  show ?thesis
    using weighted_ratio_refines_reference [of "''apple corp''" "''aple corp''" "\<lambda>a b. 95"] d r
    by simp
qed

section \<open>The rule for empty strings\<close>

lemma similarity_fold_lookup:
  "foldl (store_similarity p1 p2) m0 algos k =
   (case map_of (rev algos) k of
      Some a \<Rightarrow> Some (FloatScore (similarity_score p1 p2 a))
    | None \<Rightarrow> m0 k)"
proof (induction algos arbitrary: m0)
  case Nil
  then show ?case by simp
next
  case (Cons p algos)
  obtain n a where p: "p = (n, a)" by (cases p)
  have step: "store_similarity p1 p2 m0 p = m0(n \<mapsto> FloatScore (similarity_score p1 p2 a))"
    by (simp add: store_similarity_def p)
  have "foldl (store_similarity p1 p2) m0 (p # algos) k =
        foldl (store_similarity p1 p2) (m0(n \<mapsto> FloatScore (similarity_score p1 p2 a))) algos k"
    by (simp only: foldl_Cons step)
  also have "\<dots> = (case map_of (rev algos) k of
      Some a' \<Rightarrow> Some (FloatScore (similarity_score p1 p2 a'))
    | None \<Rightarrow> (m0(n \<mapsto> FloatScore (similarity_score p1 p2 a))) k)"
    by (rule Cons.IH)
  also have "\<dots> = (case map_of (rev (p # algos)) k of
      Some a' \<Rightarrow> Some (FloatScore (similarity_score p1 p2 a'))
    | None \<Rightarrow> m0 k)"
    by (simp add: p map_add_def split: option.splits)
  finally show ?case .
qed

lemma encoder_fold_other:
  "k \<notin> phonetic_keys encs \<Longrightarrow> foldl (store_phonetic p1 p2) m0 encs k = m0 k"
proof (induction encs arbitrary: m0)
  case Nil
  then show ?case by simp
next
  case (Cons p encs)
  obtain e f where p: "p = (e, f)" by (cases p)
  from Cons.prems have k: "k \<noteq> e @ ''_s1''" "k \<noteq> e @ ''_s2''" "k \<notin> phonetic_keys encs"
    by (auto simp: phonetic_keys_def p)
  have "foldl (store_phonetic p1 p2) m0 (p # encs) k =
        foldl (store_phonetic p1 p2) (store_phonetic p1 p2 m0 p) encs k"
    by simp
  also have "\<dots> = store_phonetic p1 p2 m0 p k"
    using k(3) by (rule Cons.IH)
  also have "\<dots> = m0 k"
    using k(1,2) by (simp add: store_phonetic_def p)
  finally show ?case .
qed

lemma scores_of_calculate_scores:
  assumes "k \<notin> phonetic_keys (phonetic_encoders self)"
  shows "scores (calculate_scores self s1 s2) k =
     (case map_of (rev (similarity_algorithms self)) k of
        Some a \<Rightarrow> Some (FloatScore (similarity_score (preprocessor self s1) (preprocessor self s2) a))
      | None \<Rightarrow> None)"
  using assms
  by (simp add: calculate_scores_def Let_def encoder_fold_other similarity_fold_lookup)

lemma similarity_score_empty:
  "p1 = [] \<or> p2 = [] \<Longrightarrow> similarity_score p1 p2 a = (if p1 = [] \<and> p2 = [] then 1 else 0)"
  by (simp add: similarity_score_def)

lemma levenshtein_empty:
  "LevenshteinAlgorithm_calculate_similarity d [] [] = 1"
  "s \<noteq> [] \<Longrightarrow> LevenshteinAlgorithm_calculate_similarity d s [] = 0"
  "s \<noteq> [] \<Longrightarrow> LevenshteinAlgorithm_calculate_similarity d [] s = 0"
  by (simp_all add: LevenshteinAlgorithm_calculate_similarity_def)

lemma damerau_levenshtein_empty:
  "DamerauLevenshteinAlgorithm_calculate_similarity d [] [] = 1"
  "s \<noteq> [] \<Longrightarrow> DamerauLevenshteinAlgorithm_calculate_similarity d s [] = 0"
  "s \<noteq> [] \<Longrightarrow> DamerauLevenshteinAlgorithm_calculate_similarity d [] s = 0"
  by (simp_all add: DamerauLevenshteinAlgorithm_calculate_similarity_def)

lemma jaro_winkler_empty:
  "JaroWinklerAlgorithm_calculate_similarity j [] [] = 1"
  "s \<noteq> [] \<Longrightarrow> JaroWinklerAlgorithm_calculate_similarity j s [] = 0"
  "s \<noteq> [] \<Longrightarrow> JaroWinklerAlgorithm_calculate_similarity j [] s = 0"
  by (simp_all add: JaroWinklerAlgorithm_calculate_similarity_def)

lemma token_set_ratio_empty:
  "TokenSetRatioAlgorithm_calculate_similarity r [] [] = 1"
  "s \<noteq> [] \<Longrightarrow> TokenSetRatioAlgorithm_calculate_similarity r s [] = 0"
  "s \<noteq> [] \<Longrightarrow> TokenSetRatioAlgorithm_calculate_similarity r [] s = 0"
  by (simp_all only: TokenSetRatioAlgorithm_calculate_similarity_def simp_thms if_True if_False)

lemma token_sort_ratio_empty:
  "TokenSortRatioAlgorithm_calculate_similarity r [] [] = 1"
  "s \<noteq> [] \<Longrightarrow> TokenSortRatioAlgorithm_calculate_similarity r s [] = 0"
  "s \<noteq> [] \<Longrightarrow> TokenSortRatioAlgorithm_calculate_similarity r [] s = 0"
  by (simp_all add: TokenSortRatioAlgorithm_calculate_similarity_def)

lemma partial_ratio_empty:
  "PartialRatioAlgorithm_calculate_similarity r [] [] = 1"
  "s \<noteq> [] \<Longrightarrow> PartialRatioAlgorithm_calculate_similarity r s [] = 0"
  "s \<noteq> [] \<Longrightarrow> PartialRatioAlgorithm_calculate_similarity r [] s = 0"
  by (simp_all add: PartialRatioAlgorithm_calculate_similarity_def)

lemma weighted_ratio_empty:
  "WeightedRatioAlgorithm_calculate_similarity r [] [] = 1"
  "s \<noteq> [] \<Longrightarrow> WeightedRatioAlgorithm_calculate_similarity r s [] = 0"
  "s \<noteq> [] \<Longrightarrow> WeightedRatioAlgorithm_calculate_similarity r [] s = 0"
  by (simp_all only: WeightedRatioAlgorithm_calculate_similarity_def simp_thms if_True if_False)

lemmas algorithm_empty =
  levenshtein_empty damerau_levenshtein_empty jaro_winkler_empty token_set_ratio_empty
  token_sort_ratio_empty partial_ratio_empty weighted_ratio_empty

lemma default_algorithm_cases:
  assumes "entry \<in> set (get_default_similarity_algorithms lib)"
  shows "(\<exists>d. calculate_similarity (snd entry) = LevenshteinAlgorithm_calculate_similarity d)
    \<or> (\<exists>d. calculate_similarity (snd entry) = DamerauLevenshteinAlgorithm_calculate_similarity d)
    \<or> (\<exists>j. calculate_similarity (snd entry) = JaroWinklerAlgorithm_calculate_similarity j)
    \<or> (\<exists>r. calculate_similarity (snd entry) = TokenSetRatioAlgorithm_calculate_similarity r)
    \<or> (\<exists>r. calculate_similarity (snd entry) = TokenSortRatioAlgorithm_calculate_similarity r)
    \<or> (\<exists>r. calculate_similarity (snd entry) = PartialRatioAlgorithm_calculate_similarity r)
    \<or> (\<exists>r. calculate_similarity (snd entry) = WeightedRatioAlgorithm_calculate_similarity r)"
proof -
  from assms have "snd entry \<in> set [LevenshteinAlgorithm lib, DamerauLevenshteinAlgorithm lib,
        JaroWinklerAlgorithm lib, TokenSetRatioAlgorithm lib, TokenSortRatioAlgorithm lib,
        PartialRatioAlgorithm lib, WeightedRatioAlgorithm lib]"
    unfolding get_default_similarity_algorithms_def by force
  then consider "snd entry = LevenshteinAlgorithm lib"
    | "snd entry = DamerauLevenshteinAlgorithm lib"
    | "snd entry = JaroWinklerAlgorithm lib"
    | "snd entry = TokenSetRatioAlgorithm lib"
    | "snd entry = TokenSortRatioAlgorithm lib"
    | "snd entry = PartialRatioAlgorithm lib"
    | "snd entry = WeightedRatioAlgorithm lib"
    by auto
  then show ?thesis
  proof cases
    case 1 then show ?thesis by (simp add: LevenshteinAlgorithm_def) blast
  next
    case 2 then show ?thesis by (simp add: DamerauLevenshteinAlgorithm_def) blast
  next
    case 3 then show ?thesis by (simp add: JaroWinklerAlgorithm_def) blast
  next
    case 4 then show ?thesis by (simp add: TokenSetRatioAlgorithm_def) blast
  next
    case 5 then show ?thesis by (simp add: TokenSortRatioAlgorithm_def) blast
  next
    case 6 then show ?thesis by (simp add: PartialRatioAlgorithm_def) blast
  next
    case 7 then show ?thesis by (simp add: WeightedRatioAlgorithm_def) blast
  qed
qed

lemma default_algorithms_empty_rule:
  assumes "entry \<in> set (get_default_similarity_algorithms lib)"
  shows "calculate_similarity (snd entry) [] [] = 1"
    and "s \<noteq> [] \<Longrightarrow> calculate_similarity (snd entry) s [] = 0"
    and "s \<noteq> [] \<Longrightarrow> calculate_similarity (snd entry) [] s = 0"
proof -
  note c = default_algorithm_cases [OF assms]
  show "calculate_similarity (snd entry) [] [] = 1"
    using c by (elim disjE exE) (simp_all add: algorithm_empty)
  show "calculate_similarity (snd entry) s [] = 0" if "s \<noteq> []"
    using c that by (elim disjE exE) (simp_all add: algorithm_empty)
  show "calculate_similarity (snd entry) [] s = 0" if "s \<noteq> []"
    using c that by (elim disjE exE) (simp_all add: algorithm_empty)
qed

lemma map_of_rev_in_set:
  "(k, a) \<in> set xs \<Longrightarrow> \<exists>b. map_of (rev xs) k = Some b \<and> (k, b) \<in> set xs"
proof -
  assume "(k, a) \<in> set xs"
  then have "k \<in> fst ` set (rev xs)" by force
  then obtain b where "map_of (rev xs) k = Some b"
    by (metis domD dom_map_of_conv_image_fst)
  then show ?thesis
    using map_of_SomeD by fastforce
qed

lemma default_algorithm_names:
  "map fst (get_default_similarity_algorithms lib) =
     [''levenshtein'', ''damerau_levenshtein'', ''jaro_winkler'', ''token_set_ratio'',
      ''token_sort_ratio'', ''partial_ratio'', ''weighted_ratio'']"
  unfolding get_default_similarity_algorithms_def
    LevenshteinAlgorithm_def DamerauLevenshteinAlgorithm_def JaroWinklerAlgorithm_def
    TokenSetRatioAlgorithm_def TokenSortRatioAlgorithm_def PartialRatioAlgorithm_def
    WeightedRatioAlgorithm_def
  by simp

lemma scorer_empty_rule:
  assumes m: "(algo_name, algorithm) \<in> set (similarity_algorithms self)"
    and k: "algo_name \<notin> phonetic_keys (phonetic_encoders self)"
    and e: "preprocessor self s1_raw = [] \<or> preprocessor self s2_raw = []"
  shows "scores (calculate_scores self s1_raw s2_raw) algo_name =
           Some (FloatScore
             (if preprocessor self s1_raw = [] \<and> preprocessor self s2_raw = [] then 1 else 0))"
proof -
  from map_of_rev_in_set [OF m]
  obtain b where b: "map_of (rev (similarity_algorithms self)) algo_name = Some b"
    by (elim exE conjE)
  have "scores (calculate_scores self s1_raw s2_raw) algo_name =
     Some (FloatScore (similarity_score (preprocessor self s1_raw) (preprocessor self s2_raw) b))"
    unfolding scores_of_calculate_scores [OF k] b by simp
  then show ?thesis
    unfolding similarity_score_empty [OF e] .
qed

text \<open>
  Claim C6: each of the seven default similarity algorithms gives 1.0 for two empty strings
  and 0.0 when exactly one string is empty; and the scorer stores the same value for every
  configured algorithm, whatever that algorithm computes, when a normalized string is empty.
\<close>

theorem empty_pair_rule:
  "map fst (get_default_similarity_algorithms lib) =
     [''levenshtein'', ''damerau_levenshtein'', ''jaro_winkler'', ''token_set_ratio'',
      ''token_sort_ratio'', ''partial_ratio'', ''weighted_ratio'']
   \<and> (\<forall>entry \<in> set (get_default_similarity_algorithms lib).
        calculate_similarity (snd entry) [] [] = 1
        \<and> (\<forall>s::string. s \<noteq> [] \<longrightarrow>
              calculate_similarity (snd entry) s [] = 0
              \<and> calculate_similarity (snd entry) [] s = 0))
   \<and> (\<forall>algo_name algorithm.
        (algo_name, algorithm) \<in> set (similarity_algorithms self)
        \<and> algo_name \<notin> phonetic_keys (phonetic_encoders self)
        \<and> (preprocessor self s1_raw = [] \<or> preprocessor self s2_raw = [])
        \<longrightarrow> scores (calculate_scores self s1_raw s2_raw) algo_name =
              Some (FloatScore
                (if preprocessor self s1_raw = [] \<and> preprocessor self s2_raw = []
                 then 1 else 0)))"
proof (intro conjI ballI allI impI)
  show "map fst (get_default_similarity_algorithms lib) =
     [''levenshtein'', ''damerau_levenshtein'', ''jaro_winkler'', ''token_set_ratio'',
      ''token_sort_ratio'', ''partial_ratio'', ''weighted_ratio'']"
    by (rule default_algorithm_names)
next
  fix entry assume "entry \<in> set (get_default_similarity_algorithms lib)"
  then show "calculate_similarity (snd entry) [] [] = 1"
    by (rule default_algorithms_empty_rule(1))
next
  fix entry and s :: string
  assume "entry \<in> set (get_default_similarity_algorithms lib)" and "s \<noteq> []"
  then show "calculate_similarity (snd entry) s [] = 0"
    by (rule default_algorithms_empty_rule(2))
next
  fix entry and s :: string
  assume "entry \<in> set (get_default_similarity_algorithms lib)" and "s \<noteq> []"
  then show "calculate_similarity (snd entry) [] s = 0"
    by (rule default_algorithms_empty_rule(3))
next
  fix algo_name algorithm
  assume a: "(algo_name, algorithm) \<in> set (similarity_algorithms self)
        \<and> algo_name \<notin> phonetic_keys (phonetic_encoders self)
        \<and> (preprocessor self s1_raw = [] \<or> preprocessor self s2_raw = [])"
  from a have m: "(algo_name, algorithm) \<in> set (similarity_algorithms self)" by (elim conjE)
  from a have k: "algo_name \<notin> phonetic_keys (phonetic_encoders self)" by (elim conjE)
  from a have e: "preprocessor self s1_raw = [] \<or> preprocessor self s2_raw = []"
    by (elim conjE)
  show "scores (calculate_scores self s1_raw s2_raw) algo_name =
              Some (FloatScore
                (if preprocessor self s1_raw = [] \<and> preprocessor self s2_raw = []
                 then 1 else 0))"
    using m k e by (rule scorer_empty_rule)
qed

theorem empty_pair_rule_witness:
  "(''levenshtein'', LevenshteinAlgorithm (constant_library 1 0 50))
      \<in> set (get_default_similarity_algorithms (constant_library 1 0 50))
   \<and> ''Apple'' \<noteq> []
   \<and> ''levenshtein'' \<notin> phonetic_keys (phonetic_encoders
         (default_scorer no_table (constant_library 1 0 50) (\<lambda>s. s)))
   \<and> preprocessor (default_scorer no_table (constant_library 1 0 50) (\<lambda>s. s)) '' '' = []
   \<and> calculate_similarity (LevenshteinAlgorithm (constant_library 1 0 50)) [] [] = 1
   \<and> calculate_similarity (LevenshteinAlgorithm (constant_library 1 0 50)) ''Apple'' [] = 0
   \<and> calculate_similarity (LevenshteinAlgorithm (constant_library 1 0 50)) [] ''Apple'' = 0
   \<and> scores (calculate_scores (default_scorer no_table (constant_library 1 0 50) (\<lambda>s. s))
         '' '' ''Apple'') ''levenshtein'' = Some (FloatScore 0)"
proof -
  let ?lib = "constant_library 1 0 50"
  let ?self = "default_scorer no_table ?lib (\<lambda>s. s)"
  have m: "(''levenshtein'', LevenshteinAlgorithm ?lib) \<in> set (get_default_similarity_algorithms ?lib)"
    by (simp add: get_default_similarity_algorithms_def LevenshteinAlgorithm_def)
  have m': "(''levenshtein'', LevenshteinAlgorithm ?lib) \<in> set (similarity_algorithms ?self)"
    using m by (simp add: default_scorer_def)
  have k: "''levenshtein'' \<notin> phonetic_keys (phonetic_encoders ?self)"
    by (simp add: default_scorer_def get_default_phonetic_encoders_def phonetic_keys_def)
  have p1: "preprocessor ?self '' '' = []"
    by (simp add: default_scorer_def StandardStringPreprocessor_def preprocess_def py_strip_def
        py_isspace_def code_point_def)
  have p2: "preprocessor ?self ''Apple'' \<noteq> []"
    unfolding default_scorer_def StandardStringPreprocessor_def by code_simp
  have n: "''Apple'' \<noteq> []" by simp
  note t = empty_pair_rule [of ?lib ?self "'' ''" "''Apple''"]
  from t m have a1: "calculate_similarity (LevenshteinAlgorithm ?lib) [] [] = 1" by fastforce
  from t m n have a2: "calculate_similarity (LevenshteinAlgorithm ?lib) ''Apple'' [] = 0"
    by fastforce
  from t m n have a3: "calculate_similarity (LevenshteinAlgorithm ?lib) [] ''Apple'' = 0"
    by fastforce
  from t m' k p1 p2 have a4: "scores (calculate_scores ?self '' '' ''Apple'') ''levenshtein''
      = Some (FloatScore 0)"
    by fastforce
  show ?thesis
    using m n k p1 a1 a2 a3 a4 by blast
qed

section \<open>The decision strategy\<close>

lemma not_phonetic_key:
  assumes "k \<noteq> []" and "last k \<noteq> CHR ''1''" and "last k \<noteq> CHR ''2''"
  shows "k \<notin> phonetic_keys encs"
proof
  assume "k \<in> phonetic_keys encs"
  then obtain e where "k = e @ ''_s1'' \<or> k = e @ ''_s2''"
    by (auto simp: phonetic_keys_def)
  then have "last k = CHR ''1'' \<or> last k = CHR ''2''"
    by auto
  with assms show False by simp
qed

lemma get_score_float:
  assumes "k \<notin> phonetic_keys (phonetic_encoders sc)"
    and "\<not> prefix ''soundex_'' k" and "\<not> prefix ''metaphone_'' k"
  shows "\<exists>x. get_score (calculate_scores sc s1 s2) k = FloatScore x"
  using assms(2,3)
  by (simp add: get_score_def scores_of_calculate_scores [OF assms(1)] split: option.splits)

lemma threshold_scores_float:
  "\<exists>x. get_score (calculate_scores sc s1 s2) ''token_set_ratio'' = FloatScore x"
  "\<exists>x. get_score (calculate_scores sc s1 s2) ''jaro_winkler'' = FloatScore x"
  "\<exists>x. get_score (calculate_scores sc s1 s2) ''weighted_ratio'' = FloatScore x"
  by (rule get_score_float, rule not_phonetic_key, simp_all)+

lemma contains_facts:
  "contains ''token_set_ratio'' ''Combined high token_set_ratio and jaro_winkler similarity''"
  "contains ''jaro_winkler'' ''Combined high token_set_ratio and jaro_winkler similarity''"
  "\<not> contains ''token_set_ratio'' ''High weighted_ratio similarity''"
  "contains ''weighted_ratio'' ''High weighted_ratio similarity''"
  "contains ''token_set_ratio'' ''Very high token_set_ratio similarity''"
  "\<not> contains ''jaro_winkler'' ''Very high token_set_ratio similarity''"
  "\<not> contains ''weighted_ratio'' ''Very high token_set_ratio similarity''"
  "\<not> contains ''token_set_ratio'' ''Very high jaro_winkler similarity''"
  "\<not> contains ''weighted_ratio'' ''Very high jaro_winkler similarity''"
  "contains ''jaro_winkler'' ''Very high jaro_winkler similarity''"
  "\<not> contains ''token_set_ratio'' ''Phonetic match (Soundex)''"
  "\<not> contains ''jaro_winkler'' ''Phonetic match (Soundex)''"
  "\<not> contains ''weighted_ratio'' ''Phonetic match (Soundex)''"
  "contains ''Soundex'' ''Phonetic match (Soundex)''"
  by code_simp+

lemma threshold_rules_defined:
  assumes "rule \<in> set (threshold_rules t1 t2 t3 t4 t5)"
  shows "\<exists>b. fst rule (calculate_scores sc s1 s2) = Inr b"
    and "\<exists>t. format_reason fmt2f strf (calculate_scores sc s1 s2) (snd rule) = Inr t"
proof -
  obtain ts jw wr where v:
    "get_score (calculate_scores sc s1 s2) ''token_set_ratio'' = FloatScore ts"
    "get_score (calculate_scores sc s1 s2) ''jaro_winkler'' = FloatScore jw"
    "get_score (calculate_scores sc s1 s2) ''weighted_ratio'' = FloatScore wr"
    using threshold_scores_float [of sc s1 s2] by blast
  have "list_all (\<lambda>rule. (\<exists>b. fst rule (calculate_scores sc s1 s2) = Inr b)
     \<and> (\<exists>t. format_reason fmt2f strf (calculate_scores sc s1 s2) (snd rule) = Inr t))
     (threshold_rules t1 t2 t3 t4 t5)"
    unfolding threshold_rules_def list.pred_inject fst_conv snd_conv
    by (auto simp: v score_ge_def py_and_def bind_err_def format_reason_def format_2f_def
        contains_facts)
  with assms have "(\<exists>b. fst rule (calculate_scores sc s1 s2) = Inr b)
     \<and> (\<exists>t. format_reason fmt2f strf (calculate_scores sc s1 s2) (snd rule) = Inr t)"
    by (simp add: list_all_iff)
  then show "\<exists>b. fst rule (calculate_scores sc s1 s2) = Inr b"
    and "\<exists>t. format_reason fmt2f strf (calculate_scores sc s1 s2) (snd rule) = Inr t"
    by blast+
qed

lemma phonetic_rule_defined:
  "\<exists>b. fst phonetic_rule sd = Inr b"
  "\<exists>t. format_reason fmt2f strf sd (snd phonetic_rule) = Inr t"
  by (simp_all add: phonetic_rule_def format_reason_def contains_facts)

lemma init_rules_defined:
  assumes "rule \<in> set (rules (ConfigurableMatchDecisionStrategy_init sc t1 t2 t3 t4 t5 pmc))"
  shows "\<exists>b. fst rule (calculate_scores sc s1 s2) = Inr b"
    and "\<exists>t. format_reason fmt2f strf (calculate_scores sc s1 s2) (snd rule) = Inr t"
proof -
  from assms have "rule \<in> set (threshold_rules t1 t2 t3 t4 t5) \<or> rule = phonetic_rule"
    by (auto simp: ConfigurableMatchDecisionStrategy_init_def split: if_splits)
  then show "\<exists>b. fst rule (calculate_scores sc s1 s2) = Inr b"
  proof
    assume "rule \<in> set (threshold_rules t1 t2 t3 t4 t5)"
    then show ?thesis by (rule threshold_rules_defined(1))
  next
    assume "rule = phonetic_rule"
    then show ?thesis by (simp add: phonetic_rule_defined(1))
  qed
  from \<open>rule \<in> set (threshold_rules t1 t2 t3 t4 t5) \<or> rule = phonetic_rule\<close>
  show "\<exists>t. format_reason fmt2f strf (calculate_scores sc s1 s2) (snd rule) = Inr t"
  proof
    assume "rule \<in> set (threshold_rules t1 t2 t3 t4 t5)"
    then show ?thesis by (rule threshold_rules_defined(2))
  next
    assume "rule = phonetic_rule"
    then show ?thesis by (simp add: phonetic_rule_defined(2))
  qed
qed

lemma apply_rules_total:
  assumes "\<forall>r \<in> set rs. \<exists>b. fst r sd = Inr b"
    and "\<forall>r \<in> set rs. \<exists>t. format_reason fmt2f strf sd (snd r) = Inr t"
  shows "\<exists>new. apply_rules fmt2f strf sd rs m acc = Inr (m \<or> fired_rules rs sd \<noteq> [], acc @ new)
           \<and> map Inr new = map (\<lambda>r. format_reason fmt2f strf sd (snd r)) (fired_rules rs sd)"
  using assms
proof (induction rs arbitrary: m acc)
  case Nil
  then show ?case by (simp add: fired_rules_def)
next
  case (Cons r rs)
  obtain c t where r: "r = (c, t)" by (cases r)
  from Cons.prems obtain b where b: "c sd = Inr b" by (auto simp: r)
  from Cons.prems obtain rtext where rtext: "format_reason fmt2f strf sd t = Inr rtext"
    by (auto simp: r)
  from Cons.prems have rest:
    "\<forall>r \<in> set rs. \<exists>b. fst r sd = Inr b"
    "\<forall>r \<in> set rs. \<exists>t. format_reason fmt2f strf sd (snd r) = Inr t"
    by simp_all
  show ?case
  proof (cases b)
    case True
    from Cons.IH [OF rest, of True "acc @ [rtext]"] obtain new where
      n: "apply_rules fmt2f strf sd rs True (acc @ [rtext]) = Inr (True, (acc @ [rtext]) @ new)"
         "map Inr new = map (\<lambda>r. format_reason fmt2f strf sd (snd r)) (fired_rules rs sd)"
      by auto
    have "apply_rules fmt2f strf sd (r # rs) m acc = Inr (True, acc @ (rtext # new))"
      using n(1) by (simp add: r b True rtext)
    moreover have "fired_rules (r # rs) sd = r # fired_rules rs sd"
      by (simp add: fired_rules_def r b True)
    ultimately show ?thesis
      using n(2) rtext by (intro exI [of _ "rtext # new"]) (simp add: r)
  next
    case False
    from Cons.IH [OF rest, of m acc] obtain new where
      n: "apply_rules fmt2f strf sd rs m acc = Inr (m \<or> fired_rules rs sd \<noteq> [], acc @ new)"
         "map Inr new = map (\<lambda>r. format_reason fmt2f strf sd (snd r)) (fired_rules rs sd)"
      by auto
    have "apply_rules fmt2f strf sd (r # rs) m acc = Inr (m \<or> fired_rules rs sd \<noteq> [], acc @ new)"
      using n(1) by (simp add: r b False)
    moreover have "fired_rules (r # rs) sd = fired_rules rs sd"
      by (simp add: fired_rules_def r b False)
    ultimately show ?thesis
      using n(2) by (intro exI [of _ new]) simp
  qed
qed

lemma evaluate_match_init:
  "\<exists>new. evaluate_match fmt2f strf (ConfigurableMatchDecisionStrategy_init sc t1 t2 t3 t4 t5 pmc)
            s1 s2 =
          Inr \<lparr>score_details = calculate_scores sc s1 s2,
               is_match =
                 (fired_rules (rules (ConfigurableMatchDecisionStrategy_init sc t1 t2 t3 t4 t5 pmc))
                    (calculate_scores sc s1 s2) \<noteq> []),
               match_reasons =
                 new @ (if pmc then [] else informational_reasons (calculate_scores sc s1 s2))\<rparr>
     \<and> map Inr new =
         map (\<lambda>r. format_reason fmt2f strf (calculate_scores sc s1 s2) (snd r))
           (fired_rules (rules (ConfigurableMatchDecisionStrategy_init sc t1 t2 t3 t4 t5 pmc))
              (calculate_scores sc s1 s2))"
proof -
  let ?st = "ConfigurableMatchDecisionStrategy_init sc t1 t2 t3 t4 t5 pmc"
  let ?sd = "calculate_scores sc s1 s2"
  have c: "\<forall>r \<in> set (rules ?st). \<exists>b. fst r ?sd = Inr b"
    using init_rules_defined(1) by blast
  have f: "\<forall>r \<in> set (rules ?st). \<exists>t. format_reason fmt2f strf ?sd (snd r) = Inr t"
    using init_rules_defined(2) by blast
  from apply_rules_total [OF c f, of False "[]"] obtain new where
    n: "apply_rules fmt2f strf ?sd (rules ?st) False [] = Inr (fired_rules (rules ?st) ?sd \<noteq> [], new)"
       "map Inr new = map (\<lambda>r. format_reason fmt2f strf ?sd (snd r)) (fired_rules (rules ?st) ?sd)"
    by auto
  have s: "scorer ?st = sc" and p: "phonetic_match_contributes ?st = pmc"
    by (simp_all add: ConfigurableMatchDecisionStrategy_init_def)
  have "evaluate_match fmt2f strf ?st s1 s2 =
      Inr \<lparr>score_details = ?sd, is_match = (fired_rules (rules ?st) ?sd \<noteq> []),
           match_reasons = new @ (if pmc then [] else informational_reasons ?sd)\<rparr>"
    by (simp add: evaluate_match_def Let_def s p n(1))
  with n(2) show ?thesis by blast
qed

lemma fired_rules_nonempty:
  "(fired_rules rs sd \<noteq> []) = (\<exists>rule \<in> set rs. fst rule sd = Inr True)"
  by (auto simp: fired_rules_def filter_empty_conv)

text \<open>
  Claim C3: for a strategy built by the constructor, \<open>evaluate_match\<close> returns a result
  for every pair of inputs; the verdict is true exactly when some configured rule holds on
  the score bundle; all rules are evaluated, and the reasons start with one formatted
  reason for each rule that fires, in the order of the rules, followed only by the
  informational entries.
\<close>

theorem evaluate_match_or_semantics:
  "\<exists>r. evaluate_match fmt2f strf (ConfigurableMatchDecisionStrategy_init sc t1 t2 t3 t4 t5 pmc)
          s1 s2 = Inr r
     \<and> score_details r = calculate_scores sc s1 s2
     \<and> is_match r =
         (\<exists>rule \<in> set (rules (ConfigurableMatchDecisionStrategy_init sc t1 t2 t3 t4 t5 pmc)).
            fst rule (score_details r) = Inr True)
     \<and> map Inr (take (length (fired_rules
                  (rules (ConfigurableMatchDecisionStrategy_init sc t1 t2 t3 t4 t5 pmc))
                  (score_details r))) (match_reasons r)) =
         map (\<lambda>rule. format_reason fmt2f strf (score_details r) (snd rule))
           (fired_rules (rules (ConfigurableMatchDecisionStrategy_init sc t1 t2 t3 t4 t5 pmc))
              (score_details r))
     \<and> drop (length (fired_rules
                  (rules (ConfigurableMatchDecisionStrategy_init sc t1 t2 t3 t4 t5 pmc))
                  (score_details r))) (match_reasons r) =
         (if pmc then [] else informational_reasons (score_details r))"
proof -
  let ?st = "ConfigurableMatchDecisionStrategy_init sc t1 t2 t3 t4 t5 pmc"
  let ?sd = "calculate_scores sc s1 s2"
  from evaluate_match_init [of fmt2f strf sc t1 t2 t3 t4 t5 pmc s1 s2] obtain new where
    e: "evaluate_match fmt2f strf ?st s1 s2 =
          Inr \<lparr>score_details = ?sd, is_match = (fired_rules (rules ?st) ?sd \<noteq> []),
               match_reasons = new @ (if pmc then [] else informational_reasons ?sd)\<rparr>"
    and m: "map Inr new = map (\<lambda>r. format_reason fmt2f strf ?sd (snd r)) (fired_rules (rules ?st) ?sd)"
    by blast
  from m have l: "length new = length (fired_rules (rules ?st) ?sd)"
    by (metis length_map)
  show ?thesis
    by (rule exI [of _ "\<lparr>score_details = ?sd, is_match = (fired_rules (rules ?st) ?sd \<noteq> []),
               match_reasons = new @ (if pmc then [] else informational_reasons ?sd)\<rparr>"])
       (simp add: e fired_rules_nonempty l [symmetric] m)
qed

theorem evaluate_match_or_semantics_witness:
  "\<exists>r. evaluate_match (\<lambda>x. ''1.00'') (\<lambda>x. ''1.0'')
          (ConfigurableMatchDecisionStrategy_init
             (default_scorer no_table (constant_library 0 1 100) (\<lambda>s. s))
             0.9 0.9 0.9 0.98 0.98 True)
          ''Apple Inc'' ''Apple Inc.'' = Inr r
     \<and> (\<exists>rule \<in> set (rules (ConfigurableMatchDecisionStrategy_init
             (default_scorer no_table (constant_library 0 1 100) (\<lambda>s. s))
             0.9 0.9 0.9 0.98 0.98 True)).
           fst rule (score_details r) = Inr True)
     \<and> is_match r"
proof -
  let ?sc = "default_scorer no_table (constant_library 0 1 100) (\<lambda>s. s)"
  let ?st = "ConfigurableMatchDecisionStrategy_init ?sc 0.9 0.9 0.9 0.98 0.98 True"
  let ?sd = "calculate_scores ?sc ''Apple Inc'' ''Apple Inc.''"
  have w: "score_ge (get_score ?sd ''weighted_ratio'') 0.9 = Inr True"
    by code_simp
  have mem: "(\<lambda>s. score_ge (get_score s ''weighted_ratio'') 0.9, ''High weighted_ratio similarity'')
      \<in> set (rules ?st)"
    by (simp add: ConfigurableMatchDecisionStrategy_init_def threshold_rules_def)
  from evaluate_match_or_semantics
    [of "\<lambda>x. ''1.00''" "\<lambda>x. ''1.0''" ?sc "0.9" "0.9" "0.9" "0.98" "0.98" True
        "''Apple Inc''" "''Apple Inc.''"]
  obtain r where r: "evaluate_match (\<lambda>x. ''1.00'') (\<lambda>x. ''1.0'') ?st ''Apple Inc'' ''Apple Inc.'' = Inr r"
    and sd: "score_details r = ?sd"
    and im: "is_match r = (\<exists>rule \<in> set (rules ?st). fst rule (score_details r) = Inr True)"
    by blast
  have ex: "\<exists>rule \<in> set (rules ?st). fst rule (score_details r) = Inr True"
    unfolding sd using mem w by (intro bexI [OF _ mem]) simp
  show ?thesis
    using r ex im by blast
qed

section \<open>Informational phonetic reasons\<close>

lemma informational_reason_present:
  assumes "c \<noteq> []" and "v1 = StrScore c" and "v2 = StrScore c"
  shows "''Informational: Phonetic '' @ label @ '' match ('' @ c @ '')''
           \<in> set (informational_reason label v1 v2)"
  using assms by (simp add: informational_reason_def)

text \<open>
  Claim C7: when phonetic matches do not contribute, \<open>evaluate_match\<close> returns a result
  whose reasons are the reasons of the threshold rules that fire followed by the
  informational reasons; an informational Soundex (Metaphone) reason is among the latter
  whenever the two codes are equal and non-empty; and the verdict is true exactly when one
  of the four threshold rules fires, so an informational reason never decides it.
\<close>

theorem informational_reason_never_decides:
  "\<exists>r rule_reasons.
      evaluate_match fmt2f strf
        (ConfigurableMatchDecisionStrategy_init sc t1 t2 t3 t4 t5 False) s1 s2 = Inr r
      \<and> score_details r = calculate_scores sc s1 s2
      \<and> match_reasons r = rule_reasons @ informational_reasons (score_details r)
      \<and> length rule_reasons =
          length (fired_rules (threshold_rules t1 t2 t3 t4 t5) (score_details r))
      \<and> is_match r =
          (\<exists>rule \<in> set (threshold_rules t1 t2 t3 t4 t5). fst rule (score_details r) = Inr True)
      \<and> (\<forall>c. c \<noteq> [] \<and> get_score (score_details r) ''soundex_s1'' = StrScore c
               \<and> get_score (score_details r) ''soundex_s2'' = StrScore c
            \<longrightarrow> ''Informational: Phonetic Soundex match ('' @ c @ '')''
                  \<in> set (informational_reasons (score_details r)))
      \<and> (\<forall>c. c \<noteq> [] \<and> get_score (score_details r) ''metaphone_s1'' = StrScore c
               \<and> get_score (score_details r) ''metaphone_s2'' = StrScore c
            \<longrightarrow> ''Informational: Phonetic Metaphone match ('' @ c @ '')''
                  \<in> set (informational_reasons (score_details r)))"
proof -
  let ?st = "ConfigurableMatchDecisionStrategy_init sc t1 t2 t3 t4 t5 False"
  let ?sd = "calculate_scores sc s1 s2"
  have rs: "rules ?st = threshold_rules t1 t2 t3 t4 t5"
    by (simp add: ConfigurableMatchDecisionStrategy_init_def)
  from evaluate_match_init [of fmt2f strf sc t1 t2 t3 t4 t5 False s1 s2] obtain new where
    e: "evaluate_match fmt2f strf ?st s1 s2 =
          Inr \<lparr>score_details = ?sd,
               is_match = (fired_rules (threshold_rules t1 t2 t3 t4 t5) ?sd \<noteq> []),
               match_reasons = new @ informational_reasons ?sd\<rparr>"
    and m: "map Inr new = map (\<lambda>r. format_reason fmt2f strf ?sd (snd r))
              (fired_rules (threshold_rules t1 t2 t3 t4 t5) ?sd)"
    unfolding rs by auto
  from m have l: "length new = length (fired_rules (threshold_rules t1 t2 t3 t4 t5) ?sd)"
    by (metis length_map)
  have s: "\<forall>c. c \<noteq> [] \<and> get_score ?sd ''soundex_s1'' = StrScore c
               \<and> get_score ?sd ''soundex_s2'' = StrScore c
            \<longrightarrow> ''Informational: Phonetic Soundex match ('' @ c @ '')''
                  \<in> set (informational_reasons ?sd)"
    using informational_reason_present [of _ _ _ "''Soundex''"]
    by (simp add: informational_reasons_def)
  have mp: "\<forall>c. c \<noteq> [] \<and> get_score ?sd ''metaphone_s1'' = StrScore c
               \<and> get_score ?sd ''metaphone_s2'' = StrScore c
            \<longrightarrow> ''Informational: Phonetic Metaphone match ('' @ c @ '')''
                  \<in> set (informational_reasons ?sd)"
    using informational_reason_present [of _ _ _ "''Metaphone''"]
    by (simp add: informational_reasons_def)
  show ?thesis
    apply (rule exI [of _ "\<lparr>score_details = ?sd,
               is_match = (fired_rules (threshold_rules t1 t2 t3 t4 t5) ?sd \<noteq> []),
               match_reasons = new @ informational_reasons ?sd\<rparr>"])
    apply (rule exI [of _ new])
    using s mp
    apply (simp add: e l fired_rules_nonempty)
    done
qed

theorem informational_reason_never_decides_witness:
  "\<exists>r. evaluate_match (\<lambda>x. ''0.50'') (\<lambda>x. ''0.5'')
          (ConfigurableMatchDecisionStrategy_init
             (default_scorer no_table (constant_library 3 0.5 50) (\<lambda>s. ''SM0''))
             0.9 0.9 0.9 0.98 0.98 False)
          ''Smith'' ''Smyth'' = Inr r
     \<and> get_score (score_details r) ''soundex_s1'' = StrScore ''S530''
     \<and> get_score (score_details r) ''soundex_s2'' = StrScore ''S530''
     \<and> ''S530'' \<noteq> []
     \<and> \<not> is_match r
     \<and> ''Informational: Phonetic Soundex match (S530)'' \<in> set (match_reasons r)"
proof -
  let ?sc = "default_scorer no_table (constant_library 3 0.5 50) (\<lambda>s. ''SM0'')"
  let ?sd = "calculate_scores ?sc ''Smith'' ''Smyth''"
  have c1: "get_score ?sd ''soundex_s1'' = StrScore ''S530''" by code_simp
  have c2: "get_score ?sd ''soundex_s2'' = StrScore ''S530''" by code_simp
  have nf: "\<not> (\<exists>rule \<in> set (threshold_rules 0.9 0.9 0.9 0.98 0.98). fst rule ?sd = Inr True)"
    by code_simp
  from informational_reason_never_decides
    [of "\<lambda>x. ''0.50''" "\<lambda>x. ''0.5''" ?sc "0.9" "0.9" "0.9" "0.98" "0.98" "''Smith''" "''Smyth''"]
  obtain r rule_reasons where
    r: "evaluate_match (\<lambda>x. ''0.50'') (\<lambda>x. ''0.5'')
          (ConfigurableMatchDecisionStrategy_init ?sc 0.9 0.9 0.9 0.98 0.98 False)
          ''Smith'' ''Smyth'' = Inr r"
    and sd: "score_details r = ?sd"
    and mr: "match_reasons r = rule_reasons @ informational_reasons (score_details r)"
    and im: "is_match r =
          (\<exists>rule \<in> set (threshold_rules 0.9 0.9 0.9 0.98 0.98). fst rule (score_details r) = Inr True)"
    and info: "\<forall>c. c \<noteq> [] \<and> get_score (score_details r) ''soundex_s1'' = StrScore c
               \<and> get_score (score_details r) ''soundex_s2'' = StrScore c
            \<longrightarrow> ''Informational: Phonetic Soundex match ('' @ c @ '')''
                  \<in> set (informational_reasons (score_details r))"
    by blast
  have "''Informational: Phonetic Soundex match ('' @ ''S530'' @ '')''
          \<in> set (informational_reasons (score_details r))"
    using info c1 c2 unfolding sd by blast
  then have in_reasons: "''Informational: Phonetic Soundex match (S530)'' \<in> set (match_reasons r)"
    by (simp add: mr)
  have "\<not> is_match r"
    using im nf unfolding sd by simp
  then show ?thesis
    using r c1 c2 in_reasons unfolding sd [symmetric] by blast
qed

section \<open>The entity resolver\<close>

lemma ibm_loop_eq:
  "ibm_loop pre cs acc =
     acc @ map (perfect_candidate pre)
             (filter (\<lambda>c. raw_value c = ''IBM'' \<or> raw_value c = ''IBM Corporation'') cs)"
  by (induction cs arbitrary: acc) (simp_all add: perfect_candidate_def Let_def)

lemma candidate_step_eq:
  "candidate_step pre (raw_value q) (pre (raw_value q)) (em, pcm) c =
     (em @ map (perfect_candidate pre) (filter (loop_condition pre q) [c]),
      pcm @ processed_candidates pre [c])"
  by (simp add: candidate_step_def Let_def loop_condition_def ibm_condition_def
      perfect_candidate_def processed_candidates_def)

lemma candidate_fold_eq:
  "foldl (candidate_step pre (raw_value q) (pre (raw_value q))) (em, pcm) cs =
     (em @ map (perfect_candidate pre) (filter (loop_condition pre q) cs),
      pcm @ processed_candidates pre cs)"
proof (induction cs arbitrary: em pcm)
  case Nil
  then show ?case by (simp add: processed_candidates_def)
next
  case (Cons c cs)
  have "foldl (candidate_step pre (raw_value q) (pre (raw_value q))) (em, pcm) (c # cs) =
        foldl (candidate_step pre (raw_value q) (pre (raw_value q)))
          (em @ map (perfect_candidate pre) (filter (loop_condition pre q) [c]),
           pcm @ processed_candidates pre [c]) cs"
    by (simp only: foldl_Cons candidate_step_eq)
  also have "\<dots> =
        ((em @ map (perfect_candidate pre) (filter (loop_condition pre q) [c]))
           @ map (perfect_candidate pre) (filter (loop_condition pre q) cs),
         (pcm @ processed_candidates pre [c]) @ processed_candidates pre cs)"
    by (rule Cons.IH)
  also have "\<dots> = (em @ map (perfect_candidate pre) (filter (loop_condition pre q) (c # cs)),
      pcm @ processed_candidates pre (c # cs))"
    by (simp add: processed_candidates_def)
  finally show ?case .
qed

lemma candidate_loop_eq:
  "candidate_loop pre (raw_value q) (pre (raw_value q)) cs =
     (map (perfect_candidate pre) (filter (loop_condition pre q) cs),
      processed_candidates pre cs)"
  by (simp add: candidate_loop_def candidate_fold_eq)

lemma sort_key_constant:
  assumes "\<forall>x \<in> set xs. f x = k"
  shows "sort_key f xs = xs"
proof -
  have "filter (\<lambda>y. f y = k) (sort_key f xs) = filter (\<lambda>y. f y = k) xs"
    by (rule sort_key_stable)
  moreover have "filter (\<lambda>y. f y = k) (sort_key f xs) = sort_key f xs"
    using assms by (intro filter_True) simp
  moreover have "filter (\<lambda>y. f y = k) xs = xs"
    using assms by (intro filter_True) simp
  ultimately show ?thesis by simp
qed

lemma sorted_perfect_candidates:
  "sorted_candidates (map (perfect_candidate pre) cs) = map (perfect_candidate pre) cs"
  unfolding sorted_candidates_def
  by (rule sort_key_constant [of _ _ "- 1"]) (auto simp: perfect_candidate_def)

lemma resolve_paths:
  assumes "resolver_preprocessor self (raw_value q) \<noteq> []"
  shows "resolve self q cs =
     (if \<exists>c \<in> set cs. ibm_condition q c
      then Inr (map (perfect_candidate (resolver_preprocessor self))
                  (filter (ibm_condition q) cs))
      else if \<exists>c \<in> set cs. exact_match_condition (resolver_preprocessor self) q c
      then Inr (map (perfect_candidate (resolver_preprocessor self))
                  (filter (exact_match_condition (resolver_preprocessor self) q) cs))
      else rank_candidates self (resolver_preprocessor self (raw_value q))
             (processed_candidates (resolver_preprocessor self) cs))"
proof -
  let ?pre = "resolver_preprocessor self"
  have ibm: "ibm_loop ?pre cs [] =
      map (perfect_candidate ?pre)
        (filter (\<lambda>c. raw_value c = ''IBM'' \<or> raw_value c = ''IBM Corporation'') cs)"
    by (simp add: ibm_loop_eq)
  show ?thesis
  proof (cases "\<exists>c \<in> set cs. ibm_condition q c")
    case True
    then have q: "raw_value q = ''IBM''" by (auto simp: ibm_condition_def)
    then have "ibm_condition q = (\<lambda>c. raw_value c = ''IBM'' \<or> raw_value c = ''IBM Corporation'')"
      by (simp add: ibm_condition_def fun_eq_iff)
    then have f: "filter (ibm_condition q) cs =
        filter (\<lambda>c. raw_value c = ''IBM'' \<or> raw_value c = ''IBM Corporation'') cs"
      by simp
    from True have ne: "filter (ibm_condition q) cs \<noteq> []"
      by (simp add: filter_empty_conv)
    show ?thesis
      using True assms ne q
      by (simp add: resolve_def Let_def ibm f [symmetric] sorted_perfect_candidates)
  next
    case False
    then have lc: "filter (loop_condition ?pre q) cs = filter (exact_match_condition ?pre q) cs"
      using assms
      by (intro filter_cong refl) (auto simp: loop_condition_def exact_match_condition_def)
    from False have no_ibm: "\<not> (raw_value q = ''IBM'' \<and> ibm_loop ?pre cs [] \<noteq> [])"
      by (auto simp: ibm filter_empty_conv ibm_condition_def)
    then have e1: "(raw_value q = ''IBM'' \<and> ibm_loop ?pre cs [] \<noteq> []) = False"
      by simp
    show ?thesis
      unfolding resolve_def Let_def e1 candidate_loop_eq
      using False assms
      by (simp add: lc sorted_perfect_candidates filter_empty_conv)
  qed
qed

lemma example_resolver_fields:
  "resolver_preprocessor (example_resolver t n) = StandardStringPreprocessor no_table"
  "primary_algorithm (example_resolver t n) = TokenSetRatioAlgorithm (constant_library 0 0 50)"
  "threshold (example_resolver t n) = t"
  "limit (example_resolver t n) = n"
  by (simp_all add: example_resolver_def)

lemma standard_preprocessor_examples:
  "StandardStringPreprocessor no_table ''IBM'' = ''ibm''"
  "StandardStringPreprocessor no_table ''I.B.M.'' = ''ibm''"
  "StandardStringPreprocessor no_table ''IBM Corporation'' = ''ibm corp''"
  unfolding StandardStringPreprocessor_def by code_simp+

text \<open>
  Claim C1, as stated, fails: for the query \<open>IBM\<close> and the single candidate
  \<open>IBM Corporation\<close> the resolver returns the candidate with score 1.0, although the raw
  strings differ and the normalized strings, \<open>ibm\<close> and \<open>ibm corp\<close>, differ too.
\<close>

theorem resolve_ibm_counterexample:
  "result_summary
     (resolve (example_resolver 0.8 5) \<lparr>raw_value = ''IBM''\<rparr> [\<lparr>raw_value = ''IBM Corporation''\<rparr>])
     = Some [(''IBM Corporation'', ''ibm corp'', 1)]
   \<and> \<not> exact_match_condition (resolver_preprocessor (example_resolver 0.8 5))
         \<lparr>raw_value = ''IBM''\<rparr> \<lparr>raw_value = ''IBM Corporation''\<rparr>"
proof -
  let ?self = "example_resolver 0.8 5"
  note pre = example_resolver_fields(1)
  note pq = standard_preprocessor_examples(1)
  note pc = standard_preprocessor_examples(3)
  have ne: "resolver_preprocessor ?self (raw_value \<lparr>raw_value = ''IBM''\<rparr>) \<noteq> []"
    by (simp add: pre pq)
  have "resolve ?self \<lparr>raw_value = ''IBM''\<rparr> [\<lparr>raw_value = ''IBM Corporation''\<rparr>] =
      Inr [perfect_candidate (StandardStringPreprocessor no_table)
             \<lparr>raw_value = ''IBM Corporation''\<rparr>]"
    unfolding resolve_paths [OF ne] by (simp add: ibm_condition_def pre)
  then have "result_summary
     (resolve ?self \<lparr>raw_value = ''IBM''\<rparr> [\<lparr>raw_value = ''IBM Corporation''\<rparr>])
     = Some [(''IBM Corporation'', ''ibm corp'', 1)]"
    by (simp add: result_summary_def candidate_summary_def normalized_of_def
        perfect_candidate_def pc)
  moreover have "\<not> exact_match_condition (resolver_preprocessor ?self)
         \<lparr>raw_value = ''IBM''\<rparr> \<lparr>raw_value = ''IBM Corporation''\<rparr>"
    by (simp add: exact_match_condition_def pre pq pc)
  ultimately show ?thesis by simp
qed

text \<open>
  Claim C1, amended: with a normalized query that is not empty, and unless the query is
  \<open>IBM\<close> and a candidate is \<open>IBM\<close> or \<open>IBM Corporation\<close>, the resolver takes
  the exact-match path exactly when the raw string of some candidate equals that of the query
  or their normalized strings are equal; it then returns exactly these candidates, with
  score 1.0 and in their original order, and otherwise it returns what the ranking
  gives. For the query \<open>IBM\<close> with a candidate \<open>IBM\<close> or \<open>IBM Corporation\<close> it
  returns exactly the candidates with these two raw strings, with score 1.0 and in their
  original order. With an empty normalized query it returns the empty list.
\<close>

theorem resolve_exact_match_path:
  "resolve self q cs =
     (if resolver_preprocessor self (raw_value q) = [] then Inr []
      else if \<exists>c \<in> set cs. ibm_condition q c
      then Inr (map (perfect_candidate (resolver_preprocessor self))
                  (filter (ibm_condition q) cs))
      else if \<exists>c \<in> set cs. exact_match_condition (resolver_preprocessor self) q c
      then Inr (map (perfect_candidate (resolver_preprocessor self))
                  (filter (exact_match_condition (resolver_preprocessor self) q) cs))
      else rank_candidates self (resolver_preprocessor self (raw_value q))
             (processed_candidates (resolver_preprocessor self) cs))"
proof (cases "resolver_preprocessor self (raw_value q) = []")
  case True
  then show ?thesis by (simp add: resolve_def)
next
  case False
  then show ?thesis by (simp only: resolve_paths [OF False] if_False)
qed

theorem resolve_exact_match_path_witness:
  "resolver_preprocessor (example_resolver 0.8 5) ''IBM Corporation'' \<noteq> []
   \<and> \<not> (\<exists>c \<in> set [\<lparr>raw_value = ''I.B.M.''\<rparr>, \<lparr>raw_value = ''IBM Corporation''\<rparr>,
            \<lparr>raw_value = ''IBM''\<rparr>]. ibm_condition \<lparr>raw_value = ''IBM Corporation''\<rparr> c)
   \<and> (\<exists>c \<in> set [\<lparr>raw_value = ''I.B.M.''\<rparr>, \<lparr>raw_value = ''IBM Corporation''\<rparr>,
            \<lparr>raw_value = ''IBM''\<rparr>].
         exact_match_condition (resolver_preprocessor (example_resolver 0.8 5))
           \<lparr>raw_value = ''IBM Corporation''\<rparr> c)
   \<and> result_summary (resolve (example_resolver 0.8 5) \<lparr>raw_value = ''IBM Corporation''\<rparr>
        [\<lparr>raw_value = ''I.B.M.''\<rparr>, \<lparr>raw_value = ''IBM Corporation''\<rparr>,
         \<lparr>raw_value = ''IBM''\<rparr>]) =
       Some [(''IBM Corporation'', ''ibm corp'', 1)]"
proof -
  let ?self = "example_resolver 0.8 5"
  let ?q = "\<lparr>raw_value = ''IBM Corporation''\<rparr>"
  let ?cs = "[\<lparr>raw_value = ''I.B.M.''\<rparr>, \<lparr>raw_value = ''IBM Corporation''\<rparr>,
              \<lparr>raw_value = ''IBM''\<rparr>]"
  note pre = example_resolver_fields(1)
  note pp = standard_preprocessor_examples
  have a: "resolver_preprocessor ?self ''IBM Corporation'' \<noteq> []"
    by (simp add: pre pp)
  have b: "\<not> (\<exists>c \<in> set ?cs. ibm_condition ?q c)"
    by (simp add: ibm_condition_def)
  have c: "\<exists>c \<in> set ?cs. exact_match_condition (resolver_preprocessor ?self) ?q c"
    by (simp add: exact_match_condition_def)
  have d: "filter (exact_match_condition (resolver_preprocessor ?self) ?q) ?cs =
      [\<lparr>raw_value = ''IBM Corporation''\<rparr>]"
    by (simp add: exact_match_condition_def pre pp)
  have "resolve ?self ?q ?cs =
       Inr (map (perfect_candidate (resolver_preprocessor ?self))
             (filter (exact_match_condition (resolver_preprocessor ?self) ?q) ?cs))"
    using resolve_exact_match_path [of ?self ?q ?cs] a b c by simp
  then have "result_summary (resolve ?self ?q ?cs) =
       Some [(''IBM Corporation'', ''ibm corp'', 1)]"
    unfolding d
    by (simp add: result_summary_def candidate_summary_def normalized_of_def
        perfect_candidate_def pre pp)
  then show ?thesis
    using a b c by blast
qed

section \<open>The ranking path of the resolver\<close>

lemma build_lookup_map_alt:
  "build_lookup_map pcm = foldl (\<lambda>m x. AList.update (processed_value (snd x)) x m) [] pcm"
  unfolding build_lookup_map_def
  by (rule arg_cong [where f = "\<lambda>g. foldl g [] pcm"]) (auto simp: fun_eq_iff)

lemma lookup_fold_map_of:
  "map_of (foldl (\<lambda>m x. AList.update (key x) x m) al xs) =
     map_of (rev (map (\<lambda>x. (key x, x)) xs) @ al)"
proof (induction xs arbitrary: al)
  case Nil
  then show ?case by simp
next
  case (Cons x xs)
  let ?A = "rev (map (\<lambda>x. (key x, x)) xs)"
  have u: "map_of (AList.update (key x) x al) = map_of ((key x, x) # al)"
    by (simp add: update_conv')
  have "map_of (foldl (\<lambda>m x. AList.update (key x) x m) al (x # xs)) =
        map_of (?A @ AList.update (key x) x al)"
    by (simp add: Cons.IH)
  also have "\<dots> = map_of (AList.update (key x) x al) ++ map_of ?A"
    by (rule map_of_append)
  also have "\<dots> = map_of ((key x, x) # al) ++ map_of ?A"
    by (simp only: u)
  also have "\<dots> = map_of (?A @ (key x, x) # al)"
    by (rule map_of_append [symmetric])
  also have "?A @ (key x, x) # al = rev (map (\<lambda>x. (key x, x)) (x # xs)) @ al"
    by simp
  finally show ?case .
qed

lemma lookup_fold_distinct:
  "distinct (map fst al) \<Longrightarrow> distinct (map fst (foldl (\<lambda>m x. AList.update (key x) x m) al xs))"
  by (induction xs arbitrary: al) (simp_all add: distinct_update)

lemma lookup_fold_keys:
  "set (map fst (foldl (\<lambda>m x. AList.update (key x) x m) al xs)) = set (map fst al) \<union> key ` set xs"
proof (induction xs arbitrary: al)
  case Nil
  then show ?case by simp
next
  case (Cons x xs)
  have u: "set (map fst (AList.update (key x) x al)) = insert (key x) (set (map fst al))"
    by (cases "key x \<in> set (map fst al)") (auto simp: update_keys)
  have "set (map fst (foldl (\<lambda>m x. AList.update (key x) x m) al (x # xs))) =
      set (map fst (AList.update (key x) x al)) \<union> key ` set xs"
    using Cons.IH [of "AList.update (key x) x al"] by simp
  also have "\<dots> = insert (key x) (set (map fst al)) \<union> key ` set xs"
    by (simp only: u)
  also have "\<dots> = set (map fst al) \<union> key ` set (x # xs)"
    by auto
  finally show ?case .
qed

lemma lookup_fold_subseq:
  "\<exists>ys. map fst (foldl (\<lambda>m x. AList.update (key x) x m) al xs) = map fst al @ ys
        \<and> subseq ys (map key xs)"
proof (induction xs arbitrary: al)
  case Nil
  then show ?case by simp
next
  case (Cons x xs)
  from Cons.IH [of "AList.update (key x) x al"] obtain ys where
    ys: "map fst (foldl (\<lambda>m x. AList.update (key x) x m) (AList.update (key x) x al) xs)
           = map fst (AList.update (key x) x al) @ ys"
    and sub: "subseq ys (map key xs)"
    by blast
  show ?case
  proof (cases "key x \<in> set (map fst al)")
    case True
    then have "map fst (AList.update (key x) x al) = map fst al"
      by (simp add: update_keys)
    with ys sub show ?thesis
      by (intro exI [of _ ys]) (simp add: list_emb_Cons)
  next
    case False
    then have "map fst (AList.update (key x) x al) = map fst al @ [key x]"
      by (simp add: update_keys)
    with ys sub show ?thesis
      by (intro exI [of _ "key x # ys"]) simp
  qed
qed

lemma map_of_rev_last:
  "map_of (rev (map (\<lambda>x. (key x, x)) xs)) k =
     (if \<exists>x \<in> set xs. key x = k then Some (last (filter (\<lambda>x. key x = k) xs)) else None)"
proof (induction xs rule: rev_induct)
  case Nil
  then show ?case by simp
next
  case (snoc x xs)
  show ?case
  proof (cases "key x = k")
    case True
    then show ?thesis by simp
  next
    case False
    then have "map_of (rev (map (\<lambda>x. (key x, x)) (xs @ [x]))) k
        = map_of (rev (map (\<lambda>x. (key x, x)) xs)) k"
      by simp
    moreover have "filter (\<lambda>x. key x = k) (xs @ [x]) = filter (\<lambda>x. key x = k) xs"
      using False by simp
    moreover have "(\<exists>y \<in> set (xs @ [x]). key y = k) = (\<exists>y \<in> set xs. key y = k)"
      using False by auto
    ultimately show ?thesis
      by (simp only: snoc.IH)
  qed
qed

lemma lookup_map_value:
  "map_of (build_lookup_map pcm) k =
     (if \<exists>x \<in> set pcm. processed_value (snd x) = k
      then Some (last (filter (\<lambda>x. processed_value (snd x) = k) pcm)) else None)"
  unfolding build_lookup_map_alt lookup_fold_map_of
  by (simp add: map_of_rev_last)

lemma lookup_map_distinct: "distinct (map fst (build_lookup_map pcm))"
  unfolding build_lookup_map_alt by (rule lookup_fold_distinct) simp

lemma lookup_map_keys:
  "set (map fst (build_lookup_map pcm)) = (\<lambda>x. processed_value (snd x)) ` set pcm"
  unfolding build_lookup_map_alt using lookup_fold_keys [of _ "[]" pcm] by simp

lemma lookup_map_subseq:
  "subseq (map fst (build_lookup_map pcm)) (map (\<lambda>x. processed_value (snd x)) pcm)"
  unfolding build_lookup_map_alt
  using lookup_fold_subseq [of "\<lambda>x. processed_value (snd x)" "[]" pcm] by auto

lemma lookup_map_key_of_value:
  assumes "map_of (build_lookup_map pcm) k = Some x"
  shows "processed_value (snd x) = k" and "x \<in> set pcm"
    and "x = last (filter (\<lambda>x. processed_value (snd x) = k) pcm)"
proof -
  from assms have ex: "\<exists>x \<in> set pcm. processed_value (snd x) = k"
    unfolding lookup_map_value by (simp split: if_splits)
  with assms show x: "x = last (filter (\<lambda>x. processed_value (snd x) = k) pcm)"
    unfolding lookup_map_value by simp
  from ex have ne: "filter (\<lambda>x. processed_value (snd x) = k) pcm \<noteq> []"
    by (simp add: filter_empty_conv)
  then have "last (filter (\<lambda>x. processed_value (snd x) = k) pcm)
      \<in> set (filter (\<lambda>x. processed_value (snd x) = k) pcm)"
    by (rule last_in_set)
  with x show "processed_value (snd x) = k" and "x \<in> set pcm" by simp_all
qed

lemma result_loop_eq:
  "\<forall>p \<in> set ps. map_of lookup_map (fst p) \<noteq> None \<Longrightarrow>
   result_loop thr lookup_map ps acc =
     Inr (acc @ map (candidate_of lookup_map) (filter (\<lambda>p. thr \<le> snd p / 100) ps))"
proof (induction ps arbitrary: acc)
  case Nil
  then show ?case by simp
next
  case (Cons p ps)
  obtain k s where p: "p = (k, s)" by (cases p)
  from Cons.prems obtain x y where l: "map_of lookup_map k = Some (x, y)"
    by (auto simp: p)
  from Cons.prems have rest: "\<forall>p \<in> set ps. map_of lookup_map (fst p) \<noteq> None"
    by simp
  show ?case
  proof (cases "thr \<le> s / 100")
    case True
    have "result_loop thr lookup_map (p # ps) acc =
        result_loop thr lookup_map ps
          (acc @ [\<lparr>entity_name = x, processed_entity_name = y, score = s / 100\<rparr>])"
      using True by (simp add: p l)
    also have "\<dots> = Inr ((acc @ [\<lparr>entity_name = x, processed_entity_name = y, score = s / 100\<rparr>])
        @ map (candidate_of lookup_map) (filter (\<lambda>p. thr \<le> snd p / 100) ps))"
      by (rule Cons.IH [OF rest])
    also have "\<lparr>entity_name = x, processed_entity_name = y, score = s / 100\<rparr>
        = candidate_of lookup_map p"
      by (simp add: candidate_of_def p l)
    finally show ?thesis using True by (simp add: p)
  next
    case False
    then have "result_loop thr lookup_map (p # ps) acc = result_loop thr lookup_map ps acc"
      by (simp add: p)
    with Cons.IH [OF rest, of acc] False show ?thesis by (simp add: p)
  qed
qed

lemma process_extract_keys:
  "fst ` set (process_extract q choices f n) \<subseteq> set choices"
proof -
  have "set (process_extract q choices f n)
      \<subseteq> set (sort_key (\<lambda>p. - snd p) (map (\<lambda>c. (c, f q c)) choices))"
    unfolding process_extract_def by (rule set_take_subset)
  then have "set (process_extract q choices f n) \<subseteq> (\<lambda>c. (c, f q c)) ` set choices"
    by simp
  then show ?thesis by auto
qed

lemma rank_candidates_eq:
  "rank_candidates self pq pcm = Inr (ranked self pq pcm)"
proof (cases "pcm = []")
  case True
  then show ?thesis
    by (simp add: rank_candidates_def ranked_def build_lookup_map_def process_extract_def
        sorted_candidates_def)
next
  case False
  let ?lm = "build_lookup_map pcm"
  let ?f = "\<lambda>q_str c_str. calculate_similarity (primary_algorithm self) q_str c_str * 100"
  let ?E = "process_extract pq (map fst ?lm) ?f (limit self)"
  have "\<forall>p \<in> set ?E. map_of ?lm (fst p) \<noteq> None"
  proof
    fix p assume "p \<in> set ?E"
    then have "fst p \<in> set (map fst ?lm)"
      using process_extract_keys [of pq "map fst ?lm" ?f "limit self"] by blast
    then show "map_of ?lm (fst p) \<noteq> None"
      by (simp add: map_of_eq_None_iff)
  qed
  then have "result_loop (threshold self) ?lm ?E [] =
      Inr (map (candidate_of ?lm) (filter (\<lambda>p. threshold self \<le> snd p / 100) ?E))"
    using result_loop_eq [of ?E ?lm "threshold self" "[]"] by simp
  then show ?thesis
    using False by (simp add: rank_candidates_def ranked_def Let_def)
qed

lemma process_extract_sorted:
  "sorted (map (\<lambda>p. - snd p) (process_extract q choices f n))"
proof -
  have "sorted (map (\<lambda>p. - snd p) (sort_key (\<lambda>p. - snd p) (map (\<lambda>c. (c, f q c)) choices)))"
    by (rule sorted_sort_key)
  then show ?thesis
    unfolding process_extract_def take_map [symmetric] by (rule sorted_wrt_take)
qed

lemma process_extract_length: "length (process_extract q choices f n) \<le> n"
  by (simp add: process_extract_def)

lemma process_extract_distinct:
  assumes "distinct choices"
  shows "distinct (map fst (process_extract q choices f n))"
proof -
  let ?g = "\<lambda>c. (c, f q c)"
  have d: "distinct (map fst (map ?g choices))"
    using assms by (simp add: comp_def)
  then have "distinct (map ?g choices)" and "inj_on fst (set (map ?g choices))"
    by (simp_all only: distinct_map)
  then have "distinct (map fst (sort_key (\<lambda>p. - snd p) (map ?g choices)))"
    by (simp only: distinct_map distinct_sort set_sort simp_thms)
  then show ?thesis
    unfolding process_extract_def take_map [symmetric] by (rule distinct_take)
qed

lemma process_extract_ties:
  "subseq (map fst (filter (\<lambda>p. snd p = s) (process_extract q choices f n))) choices"
proof -
  let ?g = "\<lambda>c. (c, f q c)"
  let ?S = "sort_key (\<lambda>p. - snd p) (map ?g choices)"
  have "filter (\<lambda>p. - snd p = - s) ?S = filter (\<lambda>p. - snd p = - s) (map ?g choices)"
    by (rule sort_key_stable [of "\<lambda>p. - snd p" "- s"])
  then have st: "filter (\<lambda>p. snd p = s) ?S = filter (\<lambda>p. snd p = s) (map ?g choices)"
    by simp
  have "subseq (take n ?S) ?S"
    by (rule prefix_imp_subseq [OF take_is_prefix])
  then have "subseq (filter (\<lambda>p. snd p = s) (take n ?S)) (filter (\<lambda>p. snd p = s) ?S)"
    by (rule subseq_filter)
  then have "subseq (map fst (filter (\<lambda>p. snd p = s) (take n ?S)))
      (map fst (filter (\<lambda>p. snd p = s) (map ?g choices)))"
    unfolding st by (rule subseq_map)
  moreover have "subseq (map fst (filter (\<lambda>p. snd p = s) (map ?g choices))) choices"
  proof -
    have "map fst (filter (\<lambda>p. snd p = s) (map ?g choices)) = filter (\<lambda>c. f q c = s) choices"
      by (induction choices) simp_all
    then show ?thesis by simp
  qed
  ultimately show ?thesis
    unfolding process_extract_def by (rule subseq_order.order_trans)
qed

lemma ranked_eq:
  "ranked self pq pcm =
     map (candidate_of (build_lookup_map pcm))
       (filter (\<lambda>p. threshold self \<le> snd p / 100)
          (process_extract pq (map fst (build_lookup_map pcm))
             (\<lambda>q_str c_str. calculate_similarity (primary_algorithm self) q_str c_str * 100)
             (limit self)))"
proof -
  let ?lm = "build_lookup_map pcm"
  let ?E = "process_extract pq (map fst ?lm)
             (\<lambda>q_str c_str. calculate_similarity (primary_algorithm self) q_str c_str * 100)
             (limit self)"
  let ?F = "filter (\<lambda>p. threshold self \<le> snd p / 100) ?E"
  have "sorted (map (\<lambda>p. - snd p) ?F)"
    using process_extract_sorted by (rule sorted_filter)
  then have "sorted_wrt (\<lambda>a b. - snd a \<le> - snd b) ?F"
    by (simp only: sorted_map)
  then have "sorted_wrt (\<lambda>a b. - (snd a / 100) \<le> - (snd b / 100)) ?F"
    by (rule sorted_wrt_mono_rel [rotated]) simp
  then have "sorted (map (\<lambda>c. - score c) (map (candidate_of ?lm) ?F))"
    by (simp add: sorted_map sorted_wrt_map candidate_of_def)
  then have "sort_key (\<lambda>c. - score c) (map (candidate_of ?lm) ?F) = map (candidate_of ?lm) ?F"
    by (rule sort_key_id_if_sorted)
  then show ?thesis
    by (simp add: ranked_def sorted_candidates_def)
qed

lemma candidate_of_fields:
  assumes "k \<in> set (map fst (build_lookup_map pcm))"
  shows "normalized_of (candidate_of (build_lookup_map pcm) (k, s)) = k"
    and "(entity_name (candidate_of (build_lookup_map pcm) (k, s)),
          processed_entity_name (candidate_of (build_lookup_map pcm) (k, s)))
         = last (filter (\<lambda>x. processed_value (snd x) = k) pcm)"
proof -
  from assms obtain x where x: "map_of (build_lookup_map pcm) k = Some x"
    by (cases "map_of (build_lookup_map pcm) k") (simp_all add: map_of_eq_None_iff)
  show "normalized_of (candidate_of (build_lookup_map pcm) (k, s)) = k"
    using lookup_map_key_of_value(1) [OF x] by (simp add: normalized_of_def candidate_of_def x)
  show "(entity_name (candidate_of (build_lookup_map pcm) (k, s)),
          processed_entity_name (candidate_of (build_lookup_map pcm) (k, s)))
         = last (filter (\<lambda>x. processed_value (snd x) = k) pcm)"
    using lookup_map_key_of_value(3) [OF x] by (simp add: candidate_of_def x)
qed

lemma candidate_of_score: "score (candidate_of lookup_map p) = snd p / 100"
  by (simp add: candidate_of_def)

lemma candidates_normalized:
  assumes "fst ` set ps \<subseteq> set (map fst (build_lookup_map pcm))"
  shows "map normalized_of (map (candidate_of (build_lookup_map pcm)) ps) = map fst ps"
proof -
  have "\<And>p. p \<in> set ps \<Longrightarrow> normalized_of (candidate_of (build_lookup_map pcm) p) = fst p"
  proof -
    fix p assume "p \<in> set ps"
    with assms have "fst p \<in> set (map fst (build_lookup_map pcm))" by blast
    from candidate_of_fields(1) [OF this, of "snd p"]
    show "normalized_of (candidate_of (build_lookup_map pcm) p) = fst p" by simp
  qed
  then show ?thesis by (simp add: map_idI)
qed

lemma ranked_properties:
  fixes self pq pcm
  defines "res \<equiv> ranked self pq pcm"
  shows "\<forall>m \<in> set res. threshold self \<le> score m"
    and "length res \<le> limit self"
    and "sorted_wrt (\<lambda>a b. score b \<le> score a) res"
    and "subseq (map normalized_of (filter (\<lambda>m. score m = k) res))
           (map fst (build_lookup_map pcm))"
    and "distinct (map normalized_of res)"
    and "\<forall>m \<in> set res.
           (entity_name m, processed_entity_name m)
             = last (filter (\<lambda>x. processed_value (snd x) = normalized_of m) pcm)
           \<and> normalized_of m \<in> set (map fst (build_lookup_map pcm))"
proof -
  let ?lm = "build_lookup_map pcm"
  let ?f = "\<lambda>q_str c_str. calculate_similarity (primary_algorithm self) q_str c_str * 100"
  let ?E = "process_extract pq (map fst ?lm) ?f (limit self)"
  let ?P = "\<lambda>p. threshold self \<le> snd p / 100"
  let ?F = "filter ?P ?E"
  have res: "res = map (candidate_of ?lm) ?F"
    unfolding res_def by (rule ranked_eq)
  have keysE: "fst ` set ?E \<subseteq> set (map fst ?lm)"
    by (rule process_extract_keys)
  then have keysF: "fst ` set ?F \<subseteq> set (map fst ?lm)"
    by auto
  have norm: "map normalized_of res = map fst ?F"
    unfolding res by (rule candidates_normalized [OF keysF])
  show "\<forall>m \<in> set res. threshold self \<le> score m"
    unfolding res by (auto simp: candidate_of_score)
  have "length res \<le> length ?E"
    unfolding res by simp
  also have "\<dots> \<le> limit self"
    by (rule process_extract_length)
  finally show "length res \<le> limit self" .
  show "sorted_wrt (\<lambda>a b. score b \<le> score a) res"
  proof -
    have "sorted (map (\<lambda>p. - snd p) ?F)"
      using process_extract_sorted by (rule sorted_filter)
    then have "sorted_wrt (\<lambda>a b. - snd a \<le> - snd b) ?F"
      by (simp only: sorted_map)
    then have "sorted_wrt (\<lambda>a b. snd b / 100 \<le> snd a / 100) ?F"
      by (rule sorted_wrt_mono_rel [rotated]) simp
    then show ?thesis
      unfolding res by (simp add: sorted_wrt_map candidate_of_score)
  qed
  show "subseq (map normalized_of (filter (\<lambda>m. score m = k) res)) (map fst ?lm)"
  proof -
    let ?T = "filter (\<lambda>p. snd p = k * 100) ?E"
    have f: "filter (\<lambda>m. score m = k) res = map (candidate_of ?lm) (filter ?P ?T)"
      unfolding res
      by (simp add: filter_map comp_def candidate_of_score conj_commute)
    have "fst ` set (filter ?P ?T) \<subseteq> set (map fst ?lm)"
      using keysE by auto
    then have "map normalized_of (filter (\<lambda>m. score m = k) res) = map fst (filter ?P ?T)"
      unfolding f by (rule candidates_normalized)
    moreover have "subseq (map fst (filter ?P ?T)) (map fst ?T)"
      by (rule subseq_map) (rule subseq_filter_left)
    moreover have "subseq (map fst ?T) (map fst ?lm)"
      by (rule process_extract_ties)
    ultimately show ?thesis
      by (simp only: subseq_order.order_trans)
  qed
  show "distinct (map normalized_of res)"
  proof -
    have "distinct (map fst ?E)"
      by (rule process_extract_distinct) (rule lookup_map_distinct)
    then have "distinct (map fst ?F)"
      by (rule distinct_map_filter)
    then show ?thesis by (simp only: norm)
  qed
  show "\<forall>m \<in> set res.
           (entity_name m, processed_entity_name m)
             = last (filter (\<lambda>x. processed_value (snd x) = normalized_of m) pcm)
           \<and> normalized_of m \<in> set (map fst ?lm)"
  proof
    fix m assume "m \<in> set res"
    then obtain p where p: "p \<in> set ?F" and m: "m = candidate_of ?lm p"
      unfolding res by auto
    from p keysF have key: "fst p \<in> set (map fst ?lm)" by blast
    have n: "normalized_of m = fst p"
      using candidate_of_fields(1) [OF key, of "snd p"] by (simp add: m)
    have "(entity_name m, processed_entity_name m)
        = last (filter (\<lambda>x. processed_value (snd x) = fst p) pcm)"
      using candidate_of_fields(2) [OF key, of "snd p"] by (simp add: m)
    with n key show "(entity_name m, processed_entity_name m)
             = last (filter (\<lambda>x. processed_value (snd x) = normalized_of m) pcm)
           \<and> normalized_of m \<in> set (map fst ?lm)"
      by simp
  qed
qed

lemma remdups_snoc: "remdups (ys @ [k]) = filter (\<lambda>y. y \<noteq> k) (remdups ys) @ [k]"
  by (induction ys) auto

lemma lookup_fold_first_occurrences:
  "map fst (foldl (\<lambda>m x. AList.update (key x) x m) al xs) =
     map fst al @ filter (\<lambda>k. k \<notin> set (map fst al)) (rev (remdups (rev (map key xs))))"
proof (induction xs arbitrary: al)
  case Nil
  then show ?case by simp
next
  case (Cons x xs)
  let ?F = "rev (remdups (rev (map key xs)))"
  have step: "rev (remdups (rev (map key (x # xs)))) = key x # filter (\<lambda>y. y \<noteq> key x) ?F"
    by (simp add: remdups_snoc rev_filter)
  have ih: "map fst (foldl (\<lambda>m x. AList.update (key x) x m) al (x # xs)) =
      map fst (AList.update (key x) x al)
        @ filter (\<lambda>k. k \<notin> set (map fst (AList.update (key x) x al))) ?F"
    using Cons.IH [of "AList.update (key x) x al"] by simp
  show ?case
  proof (cases "key x \<in> set (map fst al)")
    case True
    then have u: "map fst (AList.update (key x) x al) = map fst al"
      by (simp add: update_keys)
    have "filter (\<lambda>k. k \<notin> set (map fst al)) (key x # filter (\<lambda>y. y \<noteq> key x) ?F)
        = filter (\<lambda>k. k \<notin> set (map fst al)) ?F"
      using True by (auto intro: filter_cong)
    then show ?thesis
      unfolding ih u step by simp
  next
    case False
    then have u: "map fst (AList.update (key x) x al) = map fst al @ [key x]"
      by (simp add: update_keys)
    have "filter (\<lambda>k. k \<notin> set (map fst al)) (key x # filter (\<lambda>y. y \<noteq> key x) ?F)
        = key x # filter (\<lambda>k. k \<notin> set (map fst al @ [key x])) ?F"
      using False by (auto intro: filter_cong)
    then show ?thesis
      unfolding ih u step by simp
  qed
qed

lemma unique_choices_eq:
  "unique_choices pre cs =
     rev (remdups (rev (map (\<lambda>c. pre (raw_value c))
                          (filter (\<lambda>c. pre (raw_value c) \<noteq> []) cs))))"
proof -
  have "unique_choices pre cs =
      rev (remdups (rev (map (\<lambda>x. processed_value (snd x)) (processed_candidates pre cs))))"
    unfolding unique_choices_def build_lookup_map_alt
    using lookup_fold_first_occurrences [of "\<lambda>x. processed_value (snd x)" "[]"] by simp
  also have "map (\<lambda>x. processed_value (snd x)) (processed_candidates pre cs)
      = map (\<lambda>c. pre (raw_value c)) (filter (\<lambda>c. pre (raw_value c) \<noteq> []) cs)"
    by (simp add: processed_candidates_def comp_def)
  finally show ?thesis .
qed

lemma last_processed_candidate:
  assumes "k \<in> set (unique_choices pre cs)"
  shows "last (filter (\<lambda>x. processed_value (snd x) = k) (processed_candidates pre cs))
     = (last (filter (\<lambda>c. pre (raw_value c) = k) cs),
        \<lparr>original = last (filter (\<lambda>c. pre (raw_value c) = k) cs), processed_value = k\<rparr>)"
proof -
  let ?h = "\<lambda>c. (c, \<lparr>original = c, processed_value = pre (raw_value c)\<rparr>)"
  from assms have "k \<in> (\<lambda>x. processed_value (snd x)) ` set (processed_candidates pre cs)"
    unfolding unique_choices_def using lookup_map_keys [of "processed_candidates pre cs"] by simp
  then obtain c where c: "c \<in> set cs" "pre (raw_value c) \<noteq> []" "pre (raw_value c) = k"
    by (auto simp: processed_candidates_def)
  then have k: "k \<noteq> []" by simp
  have "filter (\<lambda>c. pre (raw_value c) \<noteq> [] \<and> pre (raw_value c) = k) cs
      = filter (\<lambda>c. pre (raw_value c) = k) cs"
    using k by (intro filter_cong) auto
  then have f: "filter (\<lambda>x. processed_value (snd x) = k) (processed_candidates pre cs)
      = map ?h (filter (\<lambda>c. pre (raw_value c) = k) cs)"
    by (simp add: processed_candidates_def filter_map comp_def conj_commute)
  have ne: "filter (\<lambda>c. pre (raw_value c) = k) cs \<noteq> []"
    using c by (auto simp: filter_empty_conv)
  have l: "pre (raw_value (last (filter (\<lambda>c. pre (raw_value c) = k) cs))) = k"
    using last_in_set [OF ne] by simp
  show ?thesis
    unfolding f by (simp add: last_map [OF ne] l)
qed

lemma resolve_ranking:
  assumes "resolver_preprocessor self (raw_value q) \<noteq> []"
    and "\<not> (\<exists>c \<in> set cs. ibm_condition q c)"
    and "\<not> (\<exists>c \<in> set cs. exact_match_condition (resolver_preprocessor self) q c)"
  shows "resolve self q cs =
     Inr (ranked self (resolver_preprocessor self (raw_value q))
            (processed_candidates (resolver_preprocessor self) cs))"
  using assms(2,3)
  by (simp only: resolve_paths [OF assms(1)] if_False rank_candidates_eq)

lemma standard_preprocessor_more_examples:
  "StandardStringPreprocessor no_table ''IBM Inc'' = ''ibm inc''"
  "StandardStringPreprocessor no_table ''Acme'' = ''acme''"
  unfolding StandardStringPreprocessor_def by code_simp+

lemma token_set_examples:
  "calculate_similarity (TokenSetRatioAlgorithm (constant_library 0 0 50)) ''ibm corp'' ''ibm''
     = 0.85"
  "calculate_similarity (TokenSetRatioAlgorithm (constant_library 0 0 50)) ''ibm corp'' ''ibm inc''
     = 0.85"
  "calculate_similarity (TokenSetRatioAlgorithm (constant_library 0 0 50)) ''ibm corp'' ''acme''
     = 0.5"
  by code_simp+

lemma resolve_total: "\<exists>res. resolve self q cs = Inr res"
proof (cases "resolver_preprocessor self (raw_value q) = []")
  case True
  then show ?thesis by (simp add: resolve_def)
next
  case False
  show ?thesis
    unfolding resolve_paths [OF False] rank_candidates_eq by simp
qed

lemma example_ranking_result:
  "resolve (example_resolver 0.8 5) \<lparr>raw_value = ''IBM Corporation''\<rparr>
     [\<lparr>raw_value = ''I.B.M.''\<rparr>, \<lparr>raw_value = ''Acme''\<rparr>, \<lparr>raw_value = ''IBM''\<rparr>]
   = Inr [\<lparr>entity_name = \<lparr>raw_value = ''IBM''\<rparr>,
           processed_entity_name =
             \<lparr>original = \<lparr>raw_value = ''IBM''\<rparr>, processed_value = ''ibm''\<rparr>,
           score = 0.85\<rparr>]"
proof -
  let ?self = "example_resolver 0.8 5"
  let ?q = "\<lparr>raw_value = ''IBM Corporation''\<rparr>"
  let ?cs = "[\<lparr>raw_value = ''I.B.M.''\<rparr>, \<lparr>raw_value = ''Acme''\<rparr>, \<lparr>raw_value = ''IBM''\<rparr>]"
  let ?pre = "StandardStringPreprocessor no_table"
  note pre = example_resolver_fields(1)
  note pp = standard_preprocessor_examples standard_preprocessor_more_examples
  have a: "resolver_preprocessor ?self (raw_value ?q) \<noteq> []"
    by (simp add: pre pp)
  have b: "\<not> (\<exists>c \<in> set ?cs. ibm_condition ?q c)"
    by (simp add: ibm_condition_def)
  have c: "\<not> (\<exists>c \<in> set ?cs. exact_match_condition (resolver_preprocessor ?self) ?q c)"
    by (simp add: exact_match_condition_def pre pp)
  have pc: "processed_candidates ?pre ?cs =
      map (\<lambda>c. (c, \<lparr>original = c, processed_value = ?pre (raw_value c)\<rparr>)) ?cs"
    by (simp add: processed_candidates_def pp)
  have lm: "build_lookup_map (processed_candidates ?pre ?cs) =
      [(''ibm'', \<lparr>raw_value = ''IBM''\<rparr>,
          \<lparr>original = \<lparr>raw_value = ''IBM''\<rparr>, processed_value = ''ibm''\<rparr>),
       (''acme'', \<lparr>raw_value = ''Acme''\<rparr>,
          \<lparr>original = \<lparr>raw_value = ''Acme''\<rparr>, processed_value = ''acme''\<rparr>)]"
    unfolding pc by (simp add: build_lookup_map_def pp)
  have pe: "process_extract ''ibm corp'' [''ibm'', ''acme'']
       (\<lambda>q_str c_str. calculate_similarity
          (TokenSetRatioAlgorithm (constant_library 0 0 50)) q_str c_str * 100) 5
      = [(''ibm'', 85), (''acme'', 50)]"
    by (simp add: process_extract_def token_set_examples)
  have "ranked ?self ''ibm corp'' (processed_candidates ?pre ?cs) =
      [\<lparr>entity_name = \<lparr>raw_value = ''IBM''\<rparr>,
        processed_entity_name =
          \<lparr>original = \<lparr>raw_value = ''IBM''\<rparr>, processed_value = ''ibm''\<rparr>,
        score = 0.85\<rparr>]"
    unfolding ranked_eq lm
    by (simp add: example_resolver_fields pe candidate_of_def)
  moreover have "resolve ?self ?q ?cs = Inr (ranked ?self ''ibm corp'' (processed_candidates ?pre ?cs))"
    using resolve_ranking [OF a b c] by (simp add: pre pp)
  ultimately show ?thesis by simp
qed

text \<open>
  Claim C9, as stated, fails: for the query \<open>IBM\<close>, the candidates \<open>IBM Corporation\<close>
  and \<open>IBM Corporation\<close> and the limit 1, the normalized query \<open>ibm\<close> is not empty and
  no candidate satisfies the exact-match condition, yet the resolver returns two
  candidates, one more than the limit.
\<close>

theorem resolve_limit_counterexample:
  "resolver_preprocessor (example_resolver 0.8 1) (raw_value \<lparr>raw_value = ''IBM''\<rparr>) \<noteq> []
   \<and> \<not> (\<exists>c \<in> set [\<lparr>raw_value = ''IBM Corporation''\<rparr>, \<lparr>raw_value = ''IBM Corporation''\<rparr>].
          exact_match_condition (resolver_preprocessor (example_resolver 0.8 1))
            \<lparr>raw_value = ''IBM''\<rparr> c)
   \<and> limit (example_resolver 0.8 1) = 1
   \<and> result_summary
        (resolve (example_resolver 0.8 1) \<lparr>raw_value = ''IBM''\<rparr>
           [\<lparr>raw_value = ''IBM Corporation''\<rparr>, \<lparr>raw_value = ''IBM Corporation''\<rparr>])
      = Some [(''IBM Corporation'', ''ibm corp'', 1), (''IBM Corporation'', ''ibm corp'', 1)]"
proof -
  let ?self = "example_resolver 0.8 1"
  let ?q = "\<lparr>raw_value = ''IBM''\<rparr>"
  let ?cs = "[\<lparr>raw_value = ''IBM Corporation''\<rparr>, \<lparr>raw_value = ''IBM Corporation''\<rparr>]"
  note pre = example_resolver_fields(1)
  note pp = standard_preprocessor_examples
  have ne: "resolver_preprocessor ?self (raw_value ?q) \<noteq> []"
    by (simp add: pre pp)
  have ex: "\<not> (\<exists>c \<in> set ?cs. exact_match_condition (resolver_preprocessor ?self) ?q c)"
    by (simp add: exact_match_condition_def pre pp)
  have l: "limit ?self = 1"
    by (rule example_resolver_fields(4))
  have "resolve ?self ?q ?cs =
      Inr (map (perfect_candidate (StandardStringPreprocessor no_table)) ?cs)"
    unfolding resolve_paths [OF ne] by (simp add: ibm_condition_def pre)
  then have "result_summary (resolve ?self ?q ?cs)
      = Some [(''IBM Corporation'', ''ibm corp'', 1), (''IBM Corporation'', ''ibm corp'', 1)]"
    by (simp add: result_summary_def candidate_summary_def normalized_of_def
        perfect_candidate_def pp)
  with ne ex l show ?thesis by blast
qed

text \<open>
  Claim C9, amended: when the normalized query is not empty, no candidate satisfies the
  exact-match condition and the special case for the query \<open>IBM\<close> does not apply (the
  query is not \<open>IBM\<close>, or no candidate is \<open>IBM\<close> or \<open>IBM Corporation\<close>), the resolver
  returns a list of candidates without raising; every returned candidate has a score at
  or above the threshold, the list has at most \<open>limit\<close> elements and is sorted by score
  in descending order, and the candidates of equal score come in the order in which
  their normalized strings first occur among the input candidates.
\<close>

theorem resolve_ranking_order:
  assumes "resolver_preprocessor self (raw_value q) \<noteq> []"
    and "\<not> (\<exists>c \<in> set cs. exact_match_condition (resolver_preprocessor self) q c)"
    and "\<not> (\<exists>c \<in> set cs. ibm_condition q c)"
  shows "\<exists>res. resolve self q cs = Inr res
     \<and> (\<forall>m \<in> set res. threshold self \<le> score m)
     \<and> length res \<le> limit self
     \<and> sorted_wrt (\<lambda>a b. score b \<le> score a) res
     \<and> (\<forall>k. subseq (map normalized_of (filter (\<lambda>m. score m = k) res))
              (unique_choices (resolver_preprocessor self) cs))
     \<and> unique_choices (resolver_preprocessor self) cs =
         rev (remdups (rev (map (\<lambda>c. resolver_preprocessor self (raw_value c))
            (filter (\<lambda>c. resolver_preprocessor self (raw_value c) \<noteq> []) cs))))"
proof -
  let ?pre = "resolver_preprocessor self"
  let ?res = "ranked self (?pre (raw_value q)) (processed_candidates ?pre cs)"
  have r: "resolve self q cs = Inr ?res"
    using assms(1) assms(3) assms(2) by (rule resolve_ranking)
  have a: "\<forall>m \<in> set ?res. threshold self \<le> score m"
    by (rule ranked_properties(1))
  have b: "length ?res \<le> limit self"
    by (rule ranked_properties(2))
  have c: "sorted_wrt (\<lambda>a b. score b \<le> score a) ?res"
    by (rule ranked_properties(3))
  have d: "\<forall>k. subseq (map normalized_of (filter (\<lambda>m. score m = k) ?res))
      (unique_choices ?pre cs)"
    unfolding unique_choices_def by (intro allI ranked_properties(4))
  have e: "unique_choices ?pre cs =
      rev (remdups (rev (map (\<lambda>c. ?pre (raw_value c))
        (filter (\<lambda>c. ?pre (raw_value c) \<noteq> []) cs))))"
    by (rule unique_choices_eq)
  from r a b c d e show ?thesis by blast
qed

theorem resolve_ranking_order_witness:
  "resolver_preprocessor (example_resolver 0.4 2) (raw_value \<lparr>raw_value = ''IBM Corporation''\<rparr>)
     \<noteq> []
   \<and> \<not> (\<exists>c \<in> set [\<lparr>raw_value = ''Acme''\<rparr>, \<lparr>raw_value = ''IBM Inc''\<rparr>,
                    \<lparr>raw_value = ''I.B.M.''\<rparr>, \<lparr>raw_value = ''IBM''\<rparr>].
          exact_match_condition (resolver_preprocessor (example_resolver 0.4 2))
            \<lparr>raw_value = ''IBM Corporation''\<rparr> c)
   \<and> \<not> (\<exists>c \<in> set [\<lparr>raw_value = ''Acme''\<rparr>, \<lparr>raw_value = ''IBM Inc''\<rparr>,
                    \<lparr>raw_value = ''I.B.M.''\<rparr>, \<lparr>raw_value = ''IBM''\<rparr>].
          ibm_condition \<lparr>raw_value = ''IBM Corporation''\<rparr> c)
   \<and> result_summary
        (resolve (example_resolver 0.4 2) \<lparr>raw_value = ''IBM Corporation''\<rparr>
           [\<lparr>raw_value = ''Acme''\<rparr>, \<lparr>raw_value = ''IBM Inc''\<rparr>,
            \<lparr>raw_value = ''I.B.M.''\<rparr>, \<lparr>raw_value = ''IBM''\<rparr>])
      = Some [(''IBM Inc'', ''ibm inc'', 0.85), (''IBM'', ''ibm'', 0.85)]
   \<and> (\<exists>res. resolve (example_resolver 0.4 2) \<lparr>raw_value = ''IBM Corporation''\<rparr>
           [\<lparr>raw_value = ''Acme''\<rparr>, \<lparr>raw_value = ''IBM Inc''\<rparr>,
            \<lparr>raw_value = ''I.B.M.''\<rparr>, \<lparr>raw_value = ''IBM''\<rparr>] = Inr res
        \<and> (\<forall>m \<in> set res. threshold (example_resolver 0.4 2) \<le> score m)
        \<and> length res \<le> limit (example_resolver 0.4 2)
        \<and> sorted_wrt (\<lambda>a b. score b \<le> score a) res
        \<and> (\<forall>k. subseq (map normalized_of (filter (\<lambda>m. score m = k) res))
              [''acme'', ''ibm inc'', ''ibm'']))"
proof -
  let ?self = "example_resolver 0.4 2"
  let ?q = "\<lparr>raw_value = ''IBM Corporation''\<rparr>"
  let ?cs = "[\<lparr>raw_value = ''Acme''\<rparr>, \<lparr>raw_value = ''IBM Inc''\<rparr>,
              \<lparr>raw_value = ''I.B.M.''\<rparr>, \<lparr>raw_value = ''IBM''\<rparr>]"
  let ?pre = "StandardStringPreprocessor no_table"
  note pre = example_resolver_fields(1)
  note pp = standard_preprocessor_examples standard_preprocessor_more_examples
  have a: "resolver_preprocessor ?self (raw_value ?q) \<noteq> []"
    by (simp add: pre pp)
  have b: "\<not> (\<exists>c \<in> set ?cs. exact_match_condition (resolver_preprocessor ?self) ?q c)"
    by (simp add: exact_match_condition_def pre pp)
  have c: "\<not> (\<exists>c \<in> set ?cs. ibm_condition ?q c)"
    by (simp add: ibm_condition_def)
  have u: "unique_choices (resolver_preprocessor ?self) ?cs = [''acme'', ''ibm inc'', ''ibm'']"
    by (simp add: unique_choices_def processed_candidates_def build_lookup_map_def pre pp)
  have pc: "processed_candidates ?pre ?cs =
      map (\<lambda>c. (c, \<lparr>original = c, processed_value = ?pre (raw_value c)\<rparr>)) ?cs"
    by (simp add: processed_candidates_def pp)
  have lm: "build_lookup_map (processed_candidates ?pre ?cs) =
      [(''acme'', \<lparr>raw_value = ''Acme''\<rparr>,
          \<lparr>original = \<lparr>raw_value = ''Acme''\<rparr>, processed_value = ''acme''\<rparr>),
       (''ibm inc'', \<lparr>raw_value = ''IBM Inc''\<rparr>,
          \<lparr>original = \<lparr>raw_value = ''IBM Inc''\<rparr>, processed_value = ''ibm inc''\<rparr>),
       (''ibm'', \<lparr>raw_value = ''IBM''\<rparr>,
          \<lparr>original = \<lparr>raw_value = ''IBM''\<rparr>, processed_value = ''ibm''\<rparr>)]"
    unfolding pc by (simp add: build_lookup_map_def pp)
  have pe: "process_extract ''ibm corp'' [''acme'', ''ibm inc'', ''ibm'']
       (\<lambda>q_str c_str. calculate_similarity
          (TokenSetRatioAlgorithm (constant_library 0 0 50)) q_str c_str * 100) 2
      = [(''ibm inc'', 85), (''ibm'', 85)]"
    by (simp add: process_extract_def token_set_examples)
  have "ranked ?self ''ibm corp'' (processed_candidates ?pre ?cs) =
      [\<lparr>entity_name = \<lparr>raw_value = ''IBM Inc''\<rparr>,
        processed_entity_name =
          \<lparr>original = \<lparr>raw_value = ''IBM Inc''\<rparr>, processed_value = ''ibm inc''\<rparr>,
        score = 0.85\<rparr>,
       \<lparr>entity_name = \<lparr>raw_value = ''IBM''\<rparr>,
        processed_entity_name =
          \<lparr>original = \<lparr>raw_value = ''IBM''\<rparr>, processed_value = ''ibm''\<rparr>,
        score = 0.85\<rparr>]"
    unfolding ranked_eq lm
    by (simp add: example_resolver_fields pe candidate_of_def)
  moreover have "resolve ?self ?q ?cs = Inr (ranked ?self ''ibm corp'' (processed_candidates ?pre ?cs))"
    using resolve_ranking [OF a c b] by (simp add: pre pp)
  ultimately have v: "result_summary (resolve ?self ?q ?cs)
      = Some [(''IBM Inc'', ''ibm inc'', 0.85), (''IBM'', ''ibm'', 0.85)]"
    by (simp add: result_summary_def candidate_summary_def normalized_of_def)
  from resolve_ranking_order [OF a b c] u
  have "\<exists>res. resolve ?self ?q ?cs = Inr res
        \<and> (\<forall>m \<in> set res. threshold ?self \<le> score m)
        \<and> length res \<le> limit ?self
        \<and> sorted_wrt (\<lambda>a b. score b \<le> score a) res
        \<and> (\<forall>k. subseq (map normalized_of (filter (\<lambda>m. score m = k) res))
              [''acme'', ''ibm inc'', ''ibm''])"
    by (elim exE conjE) (intro exI conjI, assumption+, simp)
  with a b c v show ?thesis by blast
qed

text \<open>
  Claim C10: on the ranking path, taken when the special case for the query \<open>IBM\<close> does
  not apply and no candidate is an exact match, the resolver returns at most one candidate
  for every normalized string, and a returned candidate carries the raw name of the last
  input candidate that has its normalized string.
\<close>

theorem resolve_ranking_unique:
  assumes "\<not> (\<exists>c \<in> set cs. ibm_condition q c)"
    and "\<not> (\<exists>c \<in> set cs. exact_match_condition (resolver_preprocessor self) q c)"
  shows "\<exists>res. resolve self q cs = Inr res
     \<and> distinct (map normalized_of res)
     \<and> (\<forall>m \<in> set res.
          entity_name m =
            last (filter (\<lambda>c. resolver_preprocessor self (raw_value c) = normalized_of m) cs))"
proof (cases "resolver_preprocessor self (raw_value q) = []")
  case True
  then have "resolve self q cs = Inr []"
    by (simp add: resolve_def)
  then show ?thesis by simp
next
  case False
  let ?pre = "resolver_preprocessor self"
  let ?pcm = "processed_candidates ?pre cs"
  let ?res = "ranked self (?pre (raw_value q)) ?pcm"
  have r: "resolve self q cs = Inr ?res"
    using False assms by (rule resolve_ranking)
  have d: "distinct (map normalized_of ?res)"
    by (rule ranked_properties(5))
  have l: "\<forall>m \<in> set ?res.
      entity_name m = last (filter (\<lambda>c. ?pre (raw_value c) = normalized_of m) cs)"
  proof
    fix m assume m: "m \<in> set ?res"
    from ranked_properties(6) [of self "?pre (raw_value q)" ?pcm] m
    have e: "(entity_name m, processed_entity_name m)
        = last (filter (\<lambda>x. processed_value (snd x) = normalized_of m) ?pcm)"
      and k: "normalized_of m \<in> set (unique_choices ?pre cs)"
      unfolding unique_choices_def by blast+
    from e show "entity_name m = last (filter (\<lambda>c. ?pre (raw_value c) = normalized_of m) cs)"
      unfolding last_processed_candidate [OF k] by simp
  qed
  from r d l show ?thesis by blast
qed

theorem resolve_ranking_unique_witness:
  "\<not> (\<exists>c \<in> set [\<lparr>raw_value = ''I.B.M.''\<rparr>, \<lparr>raw_value = ''Acme''\<rparr>, \<lparr>raw_value = ''IBM''\<rparr>].
          ibm_condition \<lparr>raw_value = ''IBM Corporation''\<rparr> c)
   \<and> \<not> (\<exists>c \<in> set [\<lparr>raw_value = ''I.B.M.''\<rparr>, \<lparr>raw_value = ''Acme''\<rparr>, \<lparr>raw_value = ''IBM''\<rparr>].
          exact_match_condition (resolver_preprocessor (example_resolver 0.8 5))
            \<lparr>raw_value = ''IBM Corporation''\<rparr> c)
   \<and> result_summary
        (resolve (example_resolver 0.8 5) \<lparr>raw_value = ''IBM Corporation''\<rparr>
           [\<lparr>raw_value = ''I.B.M.''\<rparr>, \<lparr>raw_value = ''Acme''\<rparr>, \<lparr>raw_value = ''IBM''\<rparr>])
      = Some [(''IBM'', ''ibm'', 0.85)]
   \<and> (\<exists>res. resolve (example_resolver 0.8 5) \<lparr>raw_value = ''IBM Corporation''\<rparr>
           [\<lparr>raw_value = ''I.B.M.''\<rparr>, \<lparr>raw_value = ''Acme''\<rparr>, \<lparr>raw_value = ''IBM''\<rparr>] = Inr res
        \<and> distinct (map normalized_of res)
        \<and> (\<forall>m \<in> set res.
             entity_name m =
               last (filter (\<lambda>c. resolver_preprocessor (example_resolver 0.8 5) (raw_value c)
                                   = normalized_of m)
                 [\<lparr>raw_value = ''I.B.M.''\<rparr>, \<lparr>raw_value = ''Acme''\<rparr>, \<lparr>raw_value = ''IBM''\<rparr>])))"
proof -
  let ?self = "example_resolver 0.8 5"
  let ?q = "\<lparr>raw_value = ''IBM Corporation''\<rparr>"
  let ?cs = "[\<lparr>raw_value = ''I.B.M.''\<rparr>, \<lparr>raw_value = ''Acme''\<rparr>, \<lparr>raw_value = ''IBM''\<rparr>]"
  note pre = example_resolver_fields(1)
  note pp = standard_preprocessor_examples standard_preprocessor_more_examples
  have b: "\<not> (\<exists>c \<in> set ?cs. ibm_condition ?q c)"
    by (simp add: ibm_condition_def)
  have c: "\<not> (\<exists>c \<in> set ?cs. exact_match_condition (resolver_preprocessor ?self) ?q c)"
    by (simp add: exact_match_condition_def pre pp)
  have v: "result_summary (resolve ?self ?q ?cs) = Some [(''IBM'', ''ibm'', 0.85)]"
    unfolding example_ranking_result
    by (simp add: result_summary_def candidate_summary_def normalized_of_def)
  from b c v resolve_ranking_unique [OF b c] show ?thesis by blast
qed

section \<open>Algorithm selection in the facade\<close>

lemma fallback_of_unregistered:
  assumes "algo_name \<notin> set (map fst (available_similarity_algorithms self))"
  shows "get_resolver_algorithm lib self algo_name =
     (if algo_name = ''nonexistent_algorithm'' then [] else [warning_message algo_name],
      case map_of (available_similarity_algorithms self) ''token_set_ratio'' of
        Some algo \<Rightarrow> algo | None \<Rightarrow> TokenSetRatioAlgorithm lib)"
proof -
  from assms have "map_of (available_similarity_algorithms self) algo_name = None"
    by (simp add: map_of_eq_None_iff)
  then show ?thesis by (simp add: get_resolver_algorithm_def)
qed

text \<open>
  Claim C8, as stated, fails: the name \<open>nonexistent_algorithm\<close> is not among the
  identifiers of the default registry, and for it the facade falls back to the
  token-set algorithm without printing a warning.
\<close>

theorem nonexistent_algorithm_counterexample:
  "''nonexistent_algorithm'' \<notin> set (map fst (available_similarity_algorithms
      (EntityResolutionFacade_init no_table (constant_library 0 0 50) None None)))
   \<and> fst (get_resolver_algorithm (constant_library 0 0 50)
        (EntityResolutionFacade_init no_table (constant_library 0 0 50) None None)
        ''nonexistent_algorithm'') = []
   \<and> name (snd (get_resolver_algorithm (constant_library 0 0 50)
        (EntityResolutionFacade_init no_table (constant_library 0 0 50) None None)
        ''nonexistent_algorithm'')) = ''token_set_ratio''"
proof -
  let ?lib = "constant_library 0 0 50"
  let ?self = "EntityResolutionFacade_init no_table ?lib None None"
  have r: "available_similarity_algorithms ?self = get_default_similarity_algorithms ?lib"
    by (simp add: EntityResolutionFacade_init_def)
  have n: "''nonexistent_algorithm'' \<notin> set (map fst (available_similarity_algorithms ?self))"
    unfolding r default_algorithm_names by simp
  have t: "map_of (get_default_similarity_algorithms ?lib) ''token_set_ratio''
      = Some (TokenSetRatioAlgorithm ?lib)"
    by (simp add: get_default_similarity_algorithms_def LevenshteinAlgorithm_def
        DamerauLevenshteinAlgorithm_def JaroWinklerAlgorithm_def TokenSetRatioAlgorithm_def)
  have "get_resolver_algorithm ?lib ?self ''nonexistent_algorithm''
      = ([], TokenSetRatioAlgorithm ?lib)"
    by (simp add: get_resolver_algorithm_def r t)
  with n show ?thesis by (simp add: TokenSetRatioAlgorithm_def)
qed

text \<open>
  Claim C8, amended: for every algorithm name that is not among the registered
  identifiers, selecting an algorithm for resolution does not raise; the facade falls
  back to the algorithm registered as \<open>token_set_ratio\<close>, or to a new token-set algorithm
  when none is registered, and it prints a warning unless the name is
  \<open>nonexistent_algorithm\<close>, for which it prints nothing. \<open>find_best_matches_in_list\<close>
  completes normally; when it finds no exact match and neither special case for \<open>Apple\<close>
  applies, it prints what the selection printed and returns the matches that the resolver
  finds with the fallback algorithm, each labelled with the name of that algorithm.
\<close>

theorem unknown_algorithm_fallback:
  assumes "algo_name \<notin> set (map fst (available_similarity_algorithms self))"
  shows "get_resolver_algorithm lib self algo_name =
       (if algo_name = ''nonexistent_algorithm'' then [] else [warning_message algo_name],
        case map_of (available_similarity_algorithms self) ''token_set_ratio'' of
          Some algo \<Rightarrow> algo | None \<Rightarrow> TokenSetRatioAlgorithm lib)
     \<and> (\<exists>printed res.
          find_best_matches_in_list lib self query_string candidate_strings algo_name thr n
            = (printed, Inr res))
     \<and> (collect_exact_matches (facade_preprocessor self) query_string algo_name
            candidate_strings = []
          \<and> \<not> apple_shortcut query_string candidate_strings \<longrightarrow>
        (\<exists>match_candidates.
           resolve \<lparr>resolver_preprocessor = facade_preprocessor self,
                    primary_algorithm = snd (get_resolver_algorithm lib self algo_name),
                    threshold = thr, limit = n\<rparr>
             \<lparr>raw_value = query_string\<rparr> (map (\<lambda>cs. \<lparr>raw_value = cs\<rparr>) candidate_strings)
             = Inr match_candidates
           \<and> find_best_matches_in_list lib self query_string candidate_strings algo_name thr n
             = (fst (get_resolver_algorithm lib self algo_name),
                Inr (map (resolver_match_info query_string
                            (snd (get_resolver_algorithm lib self algo_name)))
                       match_candidates))))"
proof -
  let ?g = "get_resolver_algorithm lib self algo_name"
  let ?svc = "\<lparr>resolver_preprocessor = facade_preprocessor self,
               primary_algorithm = snd ?g, threshold = thr, limit = n\<rparr>"
  let ?q = "\<lparr>raw_value = query_string\<rparr>"
  let ?cs = "map (\<lambda>cs. \<lparr>raw_value = cs\<rparr>) candidate_strings"
  let ?ex = "collect_exact_matches (facade_preprocessor self) query_string algo_name
               candidate_strings"
  obtain ms where ms: "resolve ?svc ?q ?cs = Inr ms"
    using resolve_total [of ?svc ?q ?cs] by blast
  have a: "?g =
       (if algo_name = ''nonexistent_algorithm'' then [] else [warning_message algo_name],
        case map_of (available_similarity_algorithms self) ''token_set_ratio'' of
          Some algo \<Rightarrow> algo | None \<Rightarrow> TokenSetRatioAlgorithm lib)"
    using assms by (rule fallback_of_unregistered)
  have g: "?g = (fst ?g, snd ?g)" by simp
  have b: "\<exists>printed res.
      find_best_matches_in_list lib self query_string candidate_strings algo_name thr n
        = (printed, Inr res)"
  proof (cases "?ex = []")
    case False
    then show ?thesis by (simp add: find_best_matches_in_list_def Let_def)
  next
    case True
    show ?thesis
    proof (cases "apple_shortcut query_string candidate_strings")
      case shortcut: True
      have "find_best_matches_in_list lib self query_string candidate_strings algo_name thr n
          = (fst ?g, Inr (collect_apple_matches (facade_preprocessor self) query_string
                            algo_name candidate_strings))"
        unfolding find_best_matches_in_list_def Let_def
        using True shortcut by (subst g) (simp only: prod.case if_True if_False simp_thms)
      then show ?thesis by blast
    next
      case no_shortcut: False
      have "find_best_matches_in_list lib self query_string candidate_strings algo_name thr n
          = (fst ?g, Inr (map (resolver_match_info query_string (snd ?g)) ms))"
        unfolding find_best_matches_in_list_def Let_def
        using True no_shortcut
        by (subst g) (simp only: prod.case if_True if_False simp_thms ms sum.case)
      then show ?thesis by blast
    qed
  qed
  have c: "?ex = [] \<and> \<not> apple_shortcut query_string candidate_strings \<longrightarrow>
        (\<exists>match_candidates.
           resolve ?svc ?q ?cs = Inr match_candidates
           \<and> find_best_matches_in_list lib self query_string candidate_strings algo_name thr n
             = (fst ?g, Inr (map (resolver_match_info query_string (snd ?g)) match_candidates)))"
  proof (intro impI, elim conjE)
    assume e: "?ex = []" and s: "\<not> apple_shortcut query_string candidate_strings"
    have "find_best_matches_in_list lib self query_string candidate_strings algo_name thr n
        = (fst ?g, Inr (map (resolver_match_info query_string (snd ?g)) ms))"
      unfolding find_best_matches_in_list_def Let_def
      using e s
      by (subst g) (simp only: prod.case if_True if_False simp_thms ms sum.case)
    with ms show "\<exists>match_candidates.
           resolve ?svc ?q ?cs = Inr match_candidates
           \<and> find_best_matches_in_list lib self query_string candidate_strings algo_name thr n
             = (fst ?g, Inr (map (resolver_match_info query_string (snd ?g)) match_candidates))"
      by blast
  qed
  from a b c show ?thesis by (intro conjI)
qed

theorem unknown_algorithm_fallback_witness:
  "''my_algorithm'' \<notin> set (map fst (available_similarity_algorithms
      (EntityResolutionFacade_init no_table (constant_library 0 0 50) None None)))
   \<and> collect_exact_matches
        (facade_preprocessor (EntityResolutionFacade_init no_table (constant_library 0 0 50) None None))
        ''IBM Corporation'' ''my_algorithm'' [''I.B.M.'', ''Acme'', ''IBM''] = []
   \<and> \<not> apple_shortcut ''IBM Corporation'' [''I.B.M.'', ''Acme'', ''IBM'']
   \<and> get_resolver_algorithm (constant_library 0 0 50)
        (EntityResolutionFacade_init no_table (constant_library 0 0 50) None None) ''my_algorithm''
      = ([warning_message ''my_algorithm''], TokenSetRatioAlgorithm (constant_library 0 0 50))
   \<and> find_best_matches_in_list (constant_library 0 0 50)
        (EntityResolutionFacade_init no_table (constant_library 0 0 50) None None)
        ''IBM Corporation'' [''I.B.M.'', ''Acme'', ''IBM''] ''my_algorithm'' 0.8 5
      = ([warning_message ''my_algorithm''],
         Inr [\<lparr>original_query = ''IBM Corporation'', matched_candidate_original = ''IBM'',
               matched_candidate_processed = ''ibm'', info_score = 0.85,
               algorithm_used = ''token_set_ratio''\<rparr>])"
proof -
  let ?lib = "constant_library 0 0 50"
  let ?self = "EntityResolutionFacade_init no_table ?lib None None"
  let ?cs = "[''I.B.M.'', ''Acme'', ''IBM'']"
  note pp = standard_preprocessor_examples standard_preprocessor_more_examples
  have r: "available_similarity_algorithms ?self = get_default_similarity_algorithms ?lib"
    by (simp add: EntityResolutionFacade_init_def)
  have p: "facade_preprocessor ?self = StandardStringPreprocessor no_table"
    by (simp add: EntityResolutionFacade_init_def)
  have n: "''my_algorithm'' \<notin> set (map fst (available_similarity_algorithms ?self))"
    unfolding r default_algorithm_names by simp
  have t: "map_of (get_default_similarity_algorithms ?lib) ''token_set_ratio''
      = Some (TokenSetRatioAlgorithm ?lib)"
    by (simp add: get_default_similarity_algorithms_def LevenshteinAlgorithm_def
        DamerauLevenshteinAlgorithm_def JaroWinklerAlgorithm_def TokenSetRatioAlgorithm_def)
  have ap: "\<not> contains ''Apple'' ''IBM Corporation''"
    unfolding contains_def by code_simp
  have e: "collect_exact_matches (facade_preprocessor ?self) ''IBM Corporation'' ''my_algorithm''
      ?cs = []"
    unfolding p by (simp add: collect_exact_matches_def exact_match_step_def pp ap)
  have s: "\<not> apple_shortcut ''IBM Corporation'' ?cs"
    by (simp add: apple_shortcut_def)
  note inst = unknown_algorithm_fallback [OF n, of ?lib "''IBM Corporation''" ?cs "0.8" 5]
  from inst have g: "get_resolver_algorithm ?lib ?self ''my_algorithm''
      = ([warning_message ''my_algorithm''], TokenSetRatioAlgorithm ?lib)"
    by (simp add: r t)
  have svc: "\<lparr>resolver_preprocessor = facade_preprocessor ?self,
      primary_algorithm = snd (get_resolver_algorithm ?lib ?self ''my_algorithm''),
      threshold = 0.8, limit = 5\<rparr> = example_resolver 0.8 5"
    unfolding g p by (simp add: example_resolver_def)
  from inst e s obtain match_candidates where
    m: "resolve (example_resolver 0.8 5) \<lparr>raw_value = ''IBM Corporation''\<rparr>
          (map (\<lambda>cs. \<lparr>raw_value = cs\<rparr>) ?cs) = Inr match_candidates"
    and f: "find_best_matches_in_list ?lib ?self ''IBM Corporation'' ?cs ''my_algorithm'' 0.8 5
      = (fst (get_resolver_algorithm ?lib ?self ''my_algorithm''),
         Inr (map (resolver_match_info ''IBM Corporation''
                     (snd (get_resolver_algorithm ?lib ?self ''my_algorithm'')))
                match_candidates))"
    unfolding svc by blast
  from m have mc: "match_candidates =
      [\<lparr>entity_name = \<lparr>raw_value = ''IBM''\<rparr>,
        processed_entity_name =
          \<lparr>original = \<lparr>raw_value = ''IBM''\<rparr>, processed_value = ''ibm''\<rparr>,
        score = 0.85\<rparr>]"
    using example_ranking_result by simp
  have "find_best_matches_in_list ?lib ?self ''IBM Corporation'' ?cs ''my_algorithm'' 0.8 5
      = ([warning_message ''my_algorithm''],
         Inr [\<lparr>original_query = ''IBM Corporation'', matched_candidate_original = ''IBM'',
               matched_candidate_processed = ''ibm'', info_score = 0.85,
               algorithm_used = ''token_set_ratio''\<rparr>])"
    unfolding f g mc
    by (simp add: resolver_match_info_def TokenSetRatioAlgorithm_def)
  with n e s g show ?thesis by blast
qed

end
